theory Spec2Isabelle
  imports Main "HOL-Library.Char_ord" "HOL-Library.List_Lexorder"
begin

section \<open>Data model\<close>

text \<open>
  Rows are keyed by opaque identifiers (cuid strings in the schema); the code only ever
  compares them for equality, so they are natural numbers here. A JavaScript \<open>Date\<close> is
  its \<open>getTime()\<close> value: milliseconds since the epoch, an integer. All \<open>Date\<close>
  arguments are valid dates (the request validators reject anything else).
\<close>

type_synonym ident = nat
type_synonym instant = int

datatype AppointmentStatus = PENDING | CONFIRMED | IN_PROGRESS | COMPLETED | CANCELLED

record Seller =
  seller_id :: ident
  isApproved :: bool

record Service =
  service_id :: ident
  service_sellerId :: ident
  durationMinutes :: int
  price :: int
  service_isActive :: bool

record Appointment =
  appt_id :: ident
  appt_buyerId :: ident
  appt_sellerId :: ident
  appt_serviceId :: ident
  appt_scheduledDate :: instant
  appt_scheduledTimeStart :: instant
  appt_scheduledTimeEnd :: instant
  appt_totalAmount :: int
  appt_status :: AppointmentStatus

record StatusHistory =
  hist_appointmentId :: ident
  hist_status :: AppointmentStatus
  hist_notes :: "string option"
  hist_changedBy :: ident

record SellerAvailability =
  avail_sellerId :: ident
  avail_dayOfWeek :: int
  avail_startTime :: string
  avail_endTime :: string
  avail_isAvailable :: bool

record SellerTimeOff =
  off_id :: ident
  off_sellerId :: ident
  off_startDate :: instant
  off_endDate :: instant
  off_reason :: "string option"
  off_isActive :: bool

text \<open>The relational store: one list per table, in insertion order, and the key generator.\<close>

record db =
  sellers :: "Seller list"
  services :: "Service list"
  appointments :: "Appointment list"
  statusHistory :: "StatusHistory list"
  sellerAvailability :: "SellerAvailability list"
  sellerTimeOff :: "SellerTimeOff list"
  nextId :: ident

record AppointmentCreateData =
  cd_serviceId :: ident
  cd_scheduledDate :: instant
  cd_scheduledTimeStart :: instant
  cd_scheduledTimeEnd :: instant

record AppointmentDetails =
  details_appointment :: Appointment
  details_statusHistory :: "StatusHistory list"

subsection \<open>Errors\<close>

datatype error =
    ServiceNotFoundOrInactive
  | SellerNotApproved
  | DurationMismatch int
  | TimeSlotNotAvailable
  | AppointmentNotFound
  | InvalidStatusTransition AppointmentStatus AppointmentStatus
  | ServiceNotFound
  | TimeOffOverlap
  | AppointmentsDuringTimeOff
  | DatabaseError

fun statusName :: "AppointmentStatus \<Rightarrow> string" where
  "statusName PENDING = ''PENDING''"
| "statusName CONFIRMED = ''CONFIRMED''"
| "statusName IN_PROGRESS = ''IN_PROGRESS''"
| "statusName COMPLETED = ''COMPLETED''"
| "statusName CANCELLED = ''CANCELLED''"

definition digitChar :: "nat \<Rightarrow> char" where
  "digitChar n = ''0123456789'' ! (n mod 10)"

fun showNat :: "nat \<Rightarrow> string" where
  "showNat n = (if n < 10 then [digitChar n] else showNat (n div 10) @ [digitChar n])"

definition showInt :: "int \<Rightarrow> string" where
  "showInt i = (if i < 0 then CHR ''-'' # showNat (nat (- i)) else showNat (nat i))"

text \<open>The text of the \<open>Error\<close> each failure throws.\<close>

fun message :: "error \<Rightarrow> string" where
  "message ServiceNotFoundOrInactive = ''Service not found or is inactive''"
| "message SellerNotApproved = ''This seller is not approved to take appointments''"
| "message (DurationMismatch d) =
     ''Appointment duration must be '' @ showInt d @ '' minutes for this service''"
| "message TimeSlotNotAvailable = ''The selected time slot is not available''"
| "message AppointmentNotFound = ''Appointment not found''"
| "message (InvalidStatusTransition cur new) =
     ''Cannot change status from '' @ statusName cur @ '' to '' @ statusName new"
| "message ServiceNotFound = ''Service not found''"
| "message TimeOffOverlap = ''Time off period overlaps with existing time off''"
| "message AppointmentsDuringTimeOff =
     ''Cannot add time off when there are pending or confirmed appointments during this period''"
| "message DatabaseError = ''database error''"

section \<open>Dates\<close>

text \<open>
  The local-time accessors of \<open>Date\<close>, for a server whose local time is UTC (no offset,
  no daylight saving): 1 January 1970 was a Thursday (day 4).
\<close>

definition minuteMs :: int where "minuteMs = 60000"
definition hourMs :: int where "hourMs = 3600000"
definition dayMs :: int where "dayMs = 86400000"

definition getDay :: "instant \<Rightarrow> int" where
  "getDay t = (t div dayMs + 4) mod 7"

definition getHours :: "instant \<Rightarrow> int" where
  "getHours t = (t mod dayMs) div hourMs"

definition getMinutes :: "instant \<Rightarrow> int" where
  "getMinutes t = (t mod hourMs) div minuteMs"

definition startOfDay :: "instant \<Rightarrow> instant" where
  "startOfDay t = t - t mod dayMs"

text \<open>\<open>d.setHours(h, m, 0, 0)\<close>\<close>

definition setHours :: "instant \<Rightarrow> int \<Rightarrow> int \<Rightarrow> instant" where
  "setHours d h m = startOfDay d + h * hourMs + m * minuteMs"

text \<open>\<open>d.setMinutes(m)\<close>: seconds and milliseconds are kept.\<close>

definition setMinutes :: "instant \<Rightarrow> int \<Rightarrow> instant" where
  "setMinutes d m = d - getMinutes d * minuteMs + m * minuteMs"

text \<open>\<open>d.setDate(d.getDate() + 1)\<close>\<close>

definition nextDay :: "instant \<Rightarrow> instant" where
  "nextDay d = d + dayMs"

text \<open>\<open>a.toDateString() === b.toDateString()\<close>\<close>

definition sameDateString :: "instant \<Rightarrow> instant \<Rightarrow> bool" where
  "sameDateString a b = (a div dayMs = b div dayMs)"

definition pad2 :: "int \<Rightarrow> string" where
  "pad2 n = [digitChar (nat n div 10), digitChar (nat n)]"

text \<open>\<open>d.toTimeString().slice(0, 5)\<close>, that is "HH:MM".\<close>

definition timeString :: "instant \<Rightarrow> string" where
  "timeString t = pad2 (getHours t) @ '':'' @ pad2 (getMinutes t)"

section \<open>The appointment service\<close>

subsection \<open>Queries\<close>

text \<open>
  The \<open>OR\<close> of three \<open>AND\<close> pairs that \<open>checkTimeSlotAvailability\<close>,
  \<open>isSellerAvailable\<close> and \<open>addTimeOff\<close> each put in their \<open>where\<close>: the stored
  range is \<open>[rowStart, rowEnd]\<close>, the requested one \<open>[startTime, endTime]\<close>.
\<close>

definition overlapWhere :: "int \<Rightarrow> int \<Rightarrow> int \<Rightarrow> int \<Rightarrow> bool" where
  "overlapWhere rowStart rowEnd startTime endTime \<longleftrightarrow>
     (rowStart \<le> startTime \<and> rowEnd > startTime)
   \<or> (rowStart < endTime \<and> rowEnd \<ge> endTime)
   \<or> (rowStart \<ge> startTime \<and> rowEnd \<le> endTime)"

definition checkTimeSlotAvailability :: "db \<Rightarrow> ident \<Rightarrow> instant \<Rightarrow> instant \<Rightarrow> bool" where
  "checkTimeSlotAvailability s sellerId startTime endTime =
     (let overlappingAppointments = length (filter (\<lambda>a.
            appt_sellerId a = sellerId
          \<and> appt_status a \<in> set [PENDING, CONFIRMED, IN_PROGRESS]
          \<and> overlapWhere (appt_scheduledTimeStart a) (appt_scheduledTimeEnd a) startTime endTime)
        (appointments s))
      in overlappingAppointments = 0)"

text \<open>\<open>findMany\<close> with \<open>orderBy: { startTime: 'asc' }\<close>: the rows sorted by the string.\<close>

definition getSellerAvailabilityForDay :: "db \<Rightarrow> ident \<Rightarrow> int \<Rightarrow> SellerAvailability list" where
  "getSellerAvailabilityForDay s sellerId dayOfWeek =
     sort_key avail_startTime (filter (\<lambda>r.
         avail_sellerId r = sellerId \<and> avail_dayOfWeek r = dayOfWeek \<and> avail_isAvailable r)
       (sellerAvailability s))"

definition isTimeWithinAvailability :: "string \<Rightarrow> SellerAvailability list \<Rightarrow> bool" where
  "isTimeWithinAvailability ts availability =
     (if length availability = 0 then False
      else list_ex (\<lambda>slot. ts \<ge> avail_startTime slot \<and> ts < avail_endTime slot) availability)"

text \<open>
  \<open>service.findFirst\<close> / \<open>findUnique\<close> with \<open>include: { seller }\<close>: the service row
  joined with the seller it references (the foreign key makes that row exist).
\<close>

definition withSeller :: "db \<Rightarrow> Service option \<Rightarrow> (Service \<times> Seller) option" where
  "withSeller s r =
     (case r of None \<Rightarrow> None
      | Some svc \<Rightarrow>
          (case find (\<lambda>u. seller_id u = service_sellerId svc) (sellers s) of
             None \<Rightarrow> None
           | Some u \<Rightarrow> Some (svc, u)))"

definition findActiveService :: "db \<Rightarrow> ident \<Rightarrow> (Service \<times> Seller) option" where
  "findActiveService s serviceId =
     withSeller s (find (\<lambda>v. service_id v = serviceId \<and> service_isActive v) (services s))"

definition findService :: "db \<Rightarrow> ident \<Rightarrow> (Service \<times> Seller) option" where
  "findService s serviceId =
     withSeller s (find (\<lambda>v. service_id v = serviceId) (services s))"

definition getAppointmentById :: "db \<Rightarrow> ident \<Rightarrow> error + AppointmentDetails" where
  "getAppointmentById s appointmentId =
     (case find (\<lambda>a. appt_id a = appointmentId) (appointments s) of
        None \<Rightarrow> Inl AppointmentNotFound
      | Some a \<Rightarrow> Inr \<lparr> details_appointment = a,
                       details_statusHistory =
                         rev (filter (\<lambda>h. hist_appointmentId h = appointmentId) (statusHistory s)) \<rparr>)"

subsection \<open>Writes and transactions\<close>

text \<open>
  A write may be refused by the store (a constraint, a lost connection): \<open>faults\<close> says
  which of the two writes of an operation is refused, and the refused write throws.
  \<open>prisma.$transaction(callback)\<close> commits the callback's writes when it returns and
  rolls all of them back when it throws.
\<close>

record faults =
  failEntityWrite :: bool
  failHistoryWrite :: bool

definition noFaults :: faults where
  "noFaults = \<lparr> failEntityWrite = False, failHistoryWrite = False \<rparr>"

definition transaction :: "(db \<Rightarrow> error + (db \<times> 'a)) \<Rightarrow> db \<Rightarrow> (error + 'a) \<times> db" where
  "transaction callback s =
     (case callback s of
        Inl e \<Rightarrow> (Inl e, s)
      | Inr (s', r) \<Rightarrow> (Inr r, s'))"

text \<open>The \<open>data\<close> of \<open>tx.appointment.create\<close>, with the key the store gives the row.\<close>

definition newAppointmentRow ::
  "db \<Rightarrow> ident \<Rightarrow> ident \<Rightarrow> AppointmentCreateData \<Rightarrow> int \<Rightarrow> Appointment" where
  "newAppointmentRow s buyerId sellerId d amount =
     \<lparr> appt_id = nextId s,
       appt_buyerId = buyerId,
       appt_sellerId = sellerId,
       appt_serviceId = cd_serviceId d,
       appt_scheduledDate = cd_scheduledDate d,
       appt_scheduledTimeStart = cd_scheduledTimeStart d,
       appt_scheduledTimeEnd = cd_scheduledTimeEnd d,
       appt_totalAmount = amount,
       appt_status = PENDING \<rparr>"

definition appointment_create ::
  "bool \<Rightarrow> ident \<Rightarrow> ident \<Rightarrow> AppointmentCreateData \<Rightarrow> int \<Rightarrow> db \<Rightarrow> error + (db \<times> Appointment)" where
  "appointment_create refused buyerId sellerId d amount s =
     (if refused then Inl DatabaseError
      else
        let newAppointment = newAppointmentRow s buyerId sellerId d amount
        in Inr (s\<lparr> appointments := appointments s @ [newAppointment], nextId := Suc (nextId s) \<rparr>,
                newAppointment))"

definition appointment_update :: "bool \<Rightarrow> ident \<Rightarrow> AppointmentStatus \<Rightarrow> db \<Rightarrow> error + db" where
  "appointment_update refused appointmentId newStatus s =
     (if refused \<or> find (\<lambda>a. appt_id a = appointmentId) (appointments s) = None
      then Inl DatabaseError
      else Inr (s\<lparr> appointments :=
                     map (\<lambda>a. if appt_id a = appointmentId then a\<lparr> appt_status := newStatus \<rparr> else a)
                         (appointments s) \<rparr>))"

definition statusHistory_create ::
  "bool \<Rightarrow> ident \<Rightarrow> AppointmentStatus \<Rightarrow> string option \<Rightarrow> ident \<Rightarrow> db \<Rightarrow> error + db" where
  "statusHistory_create refused appointmentId st notes changedBy s =
     (if refused then Inl DatabaseError
      else Inr (s\<lparr> statusHistory := statusHistory s @
                     [\<lparr> hist_appointmentId = appointmentId, hist_status = st,
                        hist_notes = notes, hist_changedBy = changedBy \<rparr>] \<rparr>))"

subsection \<open>createAppointment\<close>

text \<open>
  The location, the notes and the generated appointment number are stored as given and
  read by nothing below; they are left out of the rows.
\<close>

definition createAppointment ::
  "faults \<Rightarrow> db \<Rightarrow> ident \<Rightarrow> AppointmentCreateData \<Rightarrow> (error + AppointmentDetails) \<times> db" where
  "createAppointment f s buyerId appointmentData =
     (case findActiveService s (cd_serviceId appointmentData) of
        None \<Rightarrow> (Inl ServiceNotFoundOrInactive, s)
      | Some (service, seller) \<Rightarrow>
          if \<not> isApproved seller then (Inl SellerNotApproved, s)
          else
            let appointmentDuration = durationMinutes service;
                startTime = cd_scheduledTimeStart appointmentData;
                endTime = cd_scheduledTimeEnd appointmentData;
                expectedEndTime = startTime + appointmentDuration * 60000
            in
            if endTime \<noteq> expectedEndTime then (Inl (DurationMismatch appointmentDuration), s)
            else if \<not> checkTimeSlotAvailability s (seller_id seller) startTime endTime
            then (Inl TimeSlotNotAvailable, s)
            else
              let dayOfWeek = getDay startTime;
                  ts = timeString startTime;
                  sellerAvailability = getSellerAvailabilityForDay s (seller_id seller) dayOfWeek;
                  persist =
                    (case transaction (\<lambda>tx.
                        case appointment_create (failEntityWrite f) buyerId (seller_id seller)
                               appointmentData (price service) tx of
                          Inl e \<Rightarrow> Inl e
                        | Inr (tx1, newAppointment) \<Rightarrow>
                            (case statusHistory_create (failHistoryWrite f) (appt_id newAppointment)
                                    PENDING (Some ''Appointment created'') buyerId tx1 of
                               Inl e \<Rightarrow> Inl e
                             | Inr tx2 \<Rightarrow> Inr (tx2, newAppointment))) s of
                       (Inl e, s') \<Rightarrow> (Inl e, s')
                     | (Inr appointment, s') \<Rightarrow> (getAppointmentById s' (appt_id appointment), s'))
              in
              \<comment> \<open>the availability test only logs: its \<open>throw\<close> is commented out\<close>
              if length sellerAvailability > 0 \<and> \<not> isTimeWithinAvailability ts sellerAvailability
              then persist
              else persist)"

subsection \<open>updateAppointmentStatus\<close>

fun validTransitions :: "AppointmentStatus \<Rightarrow> AppointmentStatus list" where
  "validTransitions PENDING = [CONFIRMED, CANCELLED]"
| "validTransitions CONFIRMED = [IN_PROGRESS, CANCELLED]"
| "validTransitions IN_PROGRESS = [COMPLETED, CANCELLED]"
| "validTransitions COMPLETED = []"
| "validTransitions CANCELLED = []"

definition updateAppointmentStatus ::
  "faults \<Rightarrow> db \<Rightarrow> ident \<Rightarrow> AppointmentStatus \<Rightarrow> ident \<Rightarrow> string option
     \<Rightarrow> (error + AppointmentDetails) \<times> db" where
  "updateAppointmentStatus f s appointmentId newStatus changedBy notes =
     (case find (\<lambda>a. appt_id a = appointmentId) (appointments s) of
        None \<Rightarrow> (Inl AppointmentNotFound, s)
      | Some appointment \<Rightarrow>
          if \<not> List.member (validTransitions (appt_status appointment)) newStatus
          then (Inl (InvalidStatusTransition (appt_status appointment) newStatus), s)
          else
            (case transaction (\<lambda>tx.
                case appointment_update (failEntityWrite f) appointmentId newStatus tx of
                  Inl e \<Rightarrow> Inl e
                | Inr tx1 \<Rightarrow>
                    (case statusHistory_create (failHistoryWrite f) appointmentId newStatus
                            notes changedBy tx1 of
                       Inl e \<Rightarrow> Inl e
                     | Inr tx2 \<Rightarrow> Inr (tx2, ()))) s of
               (Inl e, s') \<Rightarrow> (Inl e, s')
             | (Inr u, s') \<Rightarrow> (getAppointmentById s' appointmentId, s')))"

text \<open>
  \<open>reason ? `Cancelled: ${reason}` : 'Appointment cancelled'\<close>: a missing reason and
  the empty string are both falsy.
\<close>

definition cancelAppointment ::
  "faults \<Rightarrow> db \<Rightarrow> ident \<Rightarrow> ident \<Rightarrow> string option \<Rightarrow> (error + AppointmentDetails) \<times> db" where
  "cancelAppointment f s appointmentId cancelledBy reason =
     updateAppointmentStatus f s appointmentId CANCELLED cancelledBy
       (case reason of
          None \<Rightarrow> Some ''Appointment cancelled''
        | Some r \<Rightarrow> if r = [] then Some ''Appointment cancelled'' else Some (''Cancelled: '' @ r))"

subsection \<open>Calls in flight\<close>

text \<open>
  Both operations are \<open>async\<close> functions. At each \<open>await\<close> the function sends one
  query (or one transaction) to the store and is suspended until the answer comes; the
  queries of other requests may reach the store in between. A call in flight is the
  query it sends next, together with the local values it holds:

  \<^item> \<open>CreateAppointment\<close>: \<open>service.findFirst\<close>, then the approval and duration tests;
  \<^item> \<open>CheckTimeSlot\<close>: the count of \<open>checkTimeSlotAvailability\<close>;
  \<^item> \<open>GetAvailabilityForDay\<close>: \<open>getSellerAvailabilityForDay\<close>, whose answer is only logged;
  \<^item> \<open>CreateTransaction\<close>: the transaction with the two inserts;
  \<^item> \<open>UpdateAppointmentStatus\<close>: \<open>appointment.findUnique\<close>, then the table test;
  \<^item> \<open>UpdateTransaction\<close>: the transaction with the update and the insert;
  \<^item> \<open>GetAppointmentById\<close>: the read of the details that both operations return;
  \<^item> \<open>Finished\<close>: the call has returned or thrown.
\<close>

datatype call =
    CreateAppointment ident AppointmentCreateData
  | CheckTimeSlot ident AppointmentCreateData Service Seller
  | GetAvailabilityForDay ident AppointmentCreateData Service Seller
  | CreateTransaction ident AppointmentCreateData Service Seller
  | UpdateAppointmentStatus ident AppointmentStatus ident "string option"
  | UpdateTransaction ident AppointmentStatus ident "string option"
  | GetAppointmentById ident
  | Finished "error + AppointmentDetails"

text \<open>
  The store answers the query of a call in flight, and the call runs on to its next
  \<open>await\<close>. A transaction is one such step: its writes are committed together, and
  no other query sees the store between them.
\<close>

fun resume :: "faults \<Rightarrow> db \<Rightarrow> call \<Rightarrow> call \<times> db" where
  "resume f s (CreateAppointment buyerId appointmentData) =
     (case findActiveService s (cd_serviceId appointmentData) of
        None \<Rightarrow> (Finished (Inl ServiceNotFoundOrInactive), s)
      | Some (service, seller) \<Rightarrow>
          if \<not> isApproved seller then (Finished (Inl SellerNotApproved), s)
          else if cd_scheduledTimeEnd appointmentData
                    \<noteq> cd_scheduledTimeStart appointmentData + durationMinutes service * 60000
          then (Finished (Inl (DurationMismatch (durationMinutes service))), s)
          else (CheckTimeSlot buyerId appointmentData service seller, s))"
| "resume f s (CheckTimeSlot buyerId appointmentData service seller) =
     (if \<not> checkTimeSlotAvailability s (seller_id seller)
             (cd_scheduledTimeStart appointmentData) (cd_scheduledTimeEnd appointmentData)
      then (Finished (Inl TimeSlotNotAvailable), s)
      else (GetAvailabilityForDay buyerId appointmentData service seller, s))"
| "resume f s (GetAvailabilityForDay buyerId appointmentData service seller) =
     (let ts = timeString (cd_scheduledTimeStart appointmentData);
          sellerAvailability = getSellerAvailabilityForDay s (seller_id seller)
                                 (getDay (cd_scheduledTimeStart appointmentData))
      in
      if length sellerAvailability > 0 \<and> \<not> isTimeWithinAvailability ts sellerAvailability
      then (CreateTransaction buyerId appointmentData service seller, s)
      else (CreateTransaction buyerId appointmentData service seller, s))"
| "resume f s (CreateTransaction buyerId appointmentData service seller) =
     (case transaction (\<lambda>tx.
         case appointment_create (failEntityWrite f) buyerId (seller_id seller)
                appointmentData (price service) tx of
           Inl e \<Rightarrow> Inl e
         | Inr (tx1, newAppointment) \<Rightarrow>
             (case statusHistory_create (failHistoryWrite f) (appt_id newAppointment)
                     PENDING (Some ''Appointment created'') buyerId tx1 of
                Inl e \<Rightarrow> Inl e
              | Inr tx2 \<Rightarrow> Inr (tx2, newAppointment))) s of
        (Inl e, s') \<Rightarrow> (Finished (Inl e), s')
      | (Inr appointment, s') \<Rightarrow> (GetAppointmentById (appt_id appointment), s'))"
| "resume f s (UpdateAppointmentStatus appointmentId newStatus changedBy notes) =
     (case find (\<lambda>a. appt_id a = appointmentId) (appointments s) of
        None \<Rightarrow> (Finished (Inl AppointmentNotFound), s)
      | Some appointment \<Rightarrow>
          if \<not> List.member (validTransitions (appt_status appointment)) newStatus
          then (Finished (Inl (InvalidStatusTransition (appt_status appointment) newStatus)), s)
          else (UpdateTransaction appointmentId newStatus changedBy notes, s))"
| "resume f s (UpdateTransaction appointmentId newStatus changedBy notes) =
     (case transaction (\<lambda>tx.
         case appointment_update (failEntityWrite f) appointmentId newStatus tx of
           Inl e \<Rightarrow> Inl e
         | Inr tx1 \<Rightarrow>
             (case statusHistory_create (failHistoryWrite f) appointmentId newStatus
                     notes changedBy tx1 of
                Inl e \<Rightarrow> Inl e
              | Inr tx2 \<Rightarrow> Inr (tx2, ()))) s of
        (Inl e, s') \<Rightarrow> (Finished (Inl e), s')
      | (Inr u, s') \<Rightarrow> (GetAppointmentById appointmentId, s'))"
| "resume f s (GetAppointmentById appointmentId) =
     (Finished (getAppointmentById s appointmentId), s)"
| "resume f s (Finished r) = (Finished r, s)"

text \<open>A call that runs with no other query in between: \<open>n\<close> steps, one after the other.\<close>

fun alone :: "nat \<Rightarrow> faults \<Rightarrow> db \<Rightarrow> call \<Rightarrow> call \<times> db" where
  "alone 0 f s c = (c, s)"
| "alone (Suc n) f s c = (case resume f s c of (c', s') \<Rightarrow> alone n f s' c')"

subsection \<open>getAvailableTimeSlots\<close>

text \<open>
  \<open>"HH:MM".split(':').map(Number)\<close>, destructured into hour and minute. The stored
  strings passed the validator's pattern \<open>^([01]?[0-9]|2[0-3]):[0-5][0-9]$\<close>, so the
  pieces are digit strings; \<open>Number\<close> of anything else is taken to be \<open>NaN\<close>
  (\<open>None\<close>), as is a missing piece.
\<close>

fun splitOn :: "char \<Rightarrow> string \<Rightarrow> string list" where
  "splitOn c [] = [[]]"
| "splitOn c (x # xs) =
     (if x = c then [] # splitOn c xs
      else (case splitOn c xs of [] \<Rightarrow> [[x]] | p # ps \<Rightarrow> (x # p) # ps))"

definition digitValue :: "char \<Rightarrow> nat option" where
  "digitValue c = map_of (zip ''0123456789'' [0 ..< 10]) c"

fun digitsValue :: "nat \<Rightarrow> string \<Rightarrow> nat option" where
  "digitsValue acc [] = Some acc"
| "digitsValue acc (c # cs) =
     (case digitValue c of None \<Rightarrow> None | Some d \<Rightarrow> digitsValue (10 * acc + d) cs)"

definition Number :: "string \<Rightarrow> int option" where
  "Number str = map_option int (digitsValue 0 str)"

definition hourMinute :: "string \<Rightarrow> (int \<times> int) option" where
  "hourMinute str =
     (case map Number (splitOn CHR '':'' str) of
        Some h # Some m # rest \<Rightarrow> Some (h, m)
      | _ \<Rightarrow> None)"

record TimeSlot =
  ts_startTime :: string
  ts_endTime :: string
  ts_isAvailable :: bool

text \<open>
  The \<open>while (currentTime < endTime)\<close> loop of one availability row. It advances by
  \<open>intervalMinutes\<close>, which the caller chooses: \<open>None\<close> is the loop that never ends.
\<close>

partial_function (option) slotLoop ::
  "db \<Rightarrow> Service \<Rightarrow> ident \<Rightarrow> int \<Rightarrow> instant \<Rightarrow> instant \<Rightarrow> TimeSlot list \<Rightarrow> TimeSlot list option" where
  "slotLoop s service sellerId intervalMinutes endTime currentTime slots =
     (if currentTime < endTime then
        slotLoop s service sellerId intervalMinutes endTime
          (currentTime + intervalMinutes * 60000)
          (if currentTime + durationMinutes service * 60000 \<le> endTime
           then slots @
             [\<lparr> ts_startTime = timeString currentTime,
                ts_endTime = timeString (currentTime + durationMinutes service * 60000),
                ts_isAvailable = checkTimeSlotAvailability s sellerId currentTime
                                   (currentTime + durationMinutes service * 60000) \<rparr>]
           else slots)
      else Some slots)"

declare slotLoop.simps [code]

text \<open>
  The \<open>for (const availabilitySlot of availability)\<close> loop. With an unparsable time the
  dates are invalid, \<open>currentTime < endTime\<close> is false and the row adds nothing.
\<close>

fun forAvailability ::
  "db \<Rightarrow> Service \<Rightarrow> ident \<Rightarrow> instant \<Rightarrow> int \<Rightarrow> SellerAvailability list \<Rightarrow> TimeSlot list
     \<Rightarrow> TimeSlot list option" where
  "forAvailability s service sellerId date intervalMinutes [] slots = Some slots"
| "forAvailability s service sellerId date intervalMinutes (availabilitySlot # rest) slots =
     (case (hourMinute (avail_startTime availabilitySlot), hourMinute (avail_endTime availabilitySlot)) of
        (Some (startHour, startMinute), Some (endHour, endMinute)) \<Rightarrow>
          (case slotLoop s service sellerId intervalMinutes (setHours date endHour endMinute)
                  (setHours date startHour startMinute) slots of
             None \<Rightarrow> None
           | Some slots' \<Rightarrow> forAvailability s service sellerId date intervalMinutes rest slots')
      | _ \<Rightarrow> forAvailability s service sellerId date intervalMinutes rest slots)"

definition getAvailableTimeSlots ::
  "db \<Rightarrow> ident \<Rightarrow> instant \<Rightarrow> int \<Rightarrow> (error + TimeSlot list) option" where
  "getAvailableTimeSlots s serviceId date intervalMinutes =
     (case findService s serviceId of
        None \<Rightarrow> Some (Inl ServiceNotFound)
      | Some (service, seller) \<Rightarrow>
          let dayOfWeek = getDay date;
              availability = getSellerAvailabilityForDay s (seller_id seller) dayOfWeek
          in
          if length availability = 0 then Some (Inr [])
          else map_option Inr
                 (forAvailability s service (seller_id seller) date intervalMinutes availability []))"

section \<open>The availability service\<close>

subsection \<open>addTimeOff\<close>

definition addTimeOff ::
  "db \<Rightarrow> ident \<Rightarrow> instant \<Rightarrow> instant \<Rightarrow> string option \<Rightarrow> (error + SellerTimeOff) \<times> db" where
  "addTimeOff s sellerId startDate endDate reason =
     (case find (\<lambda>t. off_sellerId t = sellerId \<and> off_isActive t
                   \<and> overlapWhere (off_startDate t) (off_endDate t) startDate endDate)
             (sellerTimeOff s) of
        Some overlapping \<Rightarrow> (Inl TimeOffOverlap, s)
      | None \<Rightarrow>
          let appointmentsDuringTimeOff = length (filter (\<lambda>a.
                  appt_sellerId a = sellerId
                \<and> appt_status a \<in> set [PENDING, CONFIRMED]
                \<and> appt_scheduledDate a \<ge> startDate \<and> appt_scheduledDate a \<le> endDate)
                (appointments s))
          in
          if appointmentsDuringTimeOff > 0 then (Inl AppointmentsDuringTimeOff, s)
          else
            let timeOff = \<lparr> off_id = nextId s, off_sellerId = sellerId, off_startDate = startDate,
                            off_endDate = endDate, off_reason = reason, off_isActive = True \<rparr>
            in (Inr timeOff,
                s\<lparr> sellerTimeOff := sellerTimeOff s @ [timeOff], nextId := Suc (nextId s) \<rparr>))"

subsection \<open>isSellerAvailable\<close>

record Availability =
  available :: bool
  reason :: "string option"

definition unavailable :: "string \<Rightarrow> Availability" where
  "unavailable why = \<lparr> available = False, reason = Some why \<rparr>"

definition isSellerAvailable :: "db \<Rightarrow> ident \<Rightarrow> instant \<Rightarrow> instant \<Rightarrow> instant \<Rightarrow> Availability" where
  "isSellerAvailable s sellerId date startTime endTime =
     (let dayOfWeek = getDay date;
          ts = timeString startTime
      in
      case find (\<lambda>r. avail_sellerId r = sellerId \<and> avail_dayOfWeek r = dayOfWeek)
             (sellerAvailability s) of
        None \<Rightarrow> unavailable ''Seller not available on this day''
      | Some availability \<Rightarrow>
          if \<not> avail_isAvailable availability
          then unavailable ''Seller not available on this day''
          else if ts < avail_startTime availability \<or> ts \<ge> avail_endTime availability
          then unavailable ''Time is outside seller's available hours''
          else
            (case find (\<lambda>t. off_sellerId t = sellerId \<and> off_isActive t
                          \<and> off_startDate t \<le> date \<and> off_endDate t \<ge> date)
                    (sellerTimeOff s) of
               Some timeOff \<Rightarrow> unavailable ''Seller is on time off during this period''
             | None \<Rightarrow>
                 let overlappingAppointments = length (filter (\<lambda>a.
                         appt_sellerId a = sellerId
                       \<and> appt_status a \<in> set [PENDING, CONFIRMED, IN_PROGRESS]
                       \<and> overlapWhere (appt_scheduledTimeStart a) (appt_scheduledTimeEnd a)
                           startTime endTime)
                       (appointments s))
                 in
                 if overlappingAppointments > 0 then unavailable ''Time slot is already booked''
                 else \<lparr> available = True, reason = None \<rparr>))"

subsection \<open>getNextAvailableSlot\<close>

record Slot =
  slot_date :: instant
  slot_startTime :: instant
  slot_endTime :: instant

text \<open>The inner loop: probe starts 30 minutes apart, up to the end of the day's window.\<close>

function probeSlots ::
  "db \<Rightarrow> Service \<Rightarrow> ident \<Rightarrow> instant \<Rightarrow> instant \<Rightarrow> instant \<Rightarrow> Slot option" where
  "probeSlots s service sellerId currentDate dayEnd slotStart =
     (if slotStart < dayEnd then
        (let slotEnd = slotStart + durationMinutes service * 60000 in
         if slotEnd \<le> dayEnd
            \<and> available (isSellerAvailable s sellerId currentDate slotStart slotEnd)
         then Some \<lparr> slot_date = currentDate, slot_startTime = slotStart, slot_endTime = slotEnd \<rparr>
         else probeSlots s service sellerId currentDate dayEnd (slotStart + 30 * 60000))
      else None)"
  by pat_completeness auto
termination
  by (relation "measure (\<lambda>(s, service, sellerId, currentDate, dayEnd, slotStart).
        nat (dayEnd - slotStart))") auto

declare probeSlots.simps [simp del]

text \<open>\<open>Math.ceil(m / 30) * 30\<close> on an integer \<open>m\<close>.\<close>

definition ceil30 :: "int \<Rightarrow> int" where
  "ceil30 m = (- ((- m) div 30)) * 30"

text \<open>
  One day of the outer loop, from the lookup of the day's row to the end of the inner
  loop. \<open>now\<close> is the clock read by \<open>new Date()\<close>. With an unparsable time the dates
  are invalid, every comparison with them is false and the inner loop does not run.
\<close>

definition probeDay :: "db \<Rightarrow> instant \<Rightarrow> Service \<Rightarrow> ident \<Rightarrow> instant \<Rightarrow> Slot option" where
  "probeDay s now service sellerId currentDate =
     (let dayOfWeek = getDay currentDate in
      case find (\<lambda>r. avail_sellerId r = sellerId \<and> avail_dayOfWeek r = dayOfWeek)
             (sellerAvailability s) of
        None \<Rightarrow> None
      | Some availability \<Rightarrow>
          if \<not> avail_isAvailable availability then None
          else
            (case find (\<lambda>t. off_sellerId t = sellerId \<and> off_isActive t
                          \<and> off_startDate t \<le> currentDate \<and> off_endDate t \<ge> currentDate)
                    (sellerTimeOff s) of
               Some timeOff \<Rightarrow> None
             | None \<Rightarrow>
                 (case (hourMinute (avail_startTime availability),
                        hourMinute (avail_endTime availability)) of
                    (Some (startHour, startMinute), Some (endHour, endMinute)) \<Rightarrow>
                      let slotStart = setHours currentDate startHour startMinute;
                          dayEnd = setHours currentDate endHour endMinute;
                          slotStart' =
                            (if sameDateString currentDate now \<and> slotStart < now
                             then setMinutes now (ceil30 (getMinutes now))
                             else slotStart)
                      in probeSlots s service sellerId currentDate dayEnd slotStart'
                  | _ \<Rightarrow> None)))"

text \<open>The outer loop: one calendar day after the other, up to \<open>endDate\<close>.\<close>

function scanDays ::
  "db \<Rightarrow> instant \<Rightarrow> Service \<Rightarrow> ident \<Rightarrow> instant \<Rightarrow> instant \<Rightarrow> Slot option" where
  "scanDays s now service sellerId endDate currentDate =
     (if currentDate \<le> endDate then
        (case probeDay s now service sellerId currentDate of
           Some slot \<Rightarrow> Some slot
         | None \<Rightarrow> scanDays s now service sellerId endDate (nextDay currentDate))
      else None)"
  by pat_completeness auto
termination
  by (relation "measure (\<lambda>(s, now, service, sellerId, endDate, currentDate).
        nat (endDate - currentDate + 1))") (auto simp: nextDay_def dayMs_def)

declare scanDays.simps [simp del]

definition getNextAvailableSlot ::
  "db \<Rightarrow> instant \<Rightarrow> ident \<Rightarrow> instant \<Rightarrow> int \<Rightarrow> error + Slot option" where
  "getNextAvailableSlot s now serviceId fromDate daysAhead =
     (case findService s serviceId of
        None \<Rightarrow> Inl ServiceNotFound
      | Some (service, seller) \<Rightarrow>
          let endDate = fromDate + daysAhead * 24 * 60 * 60 * 1000;
              currentDate = startOfDay fromDate
          in Inr (scanDays s now service (seller_id seller) endDate currentDate))"

text \<open>An hour string written with two digits: "HH:MM", as \<open>toTimeString\<close> writes it.\<close>

definition paddedTime :: "string \<Rightarrow> bool" where
  "paddedTime str \<longleftrightarrow>
     (case hourMinute str of
        Some (h, m) \<Rightarrow> 0 \<le> h \<and> h < 24 \<and> 0 \<le> m \<and> m < 60 \<and> str = pad2 h @ '':'' @ pad2 m
      | None \<Rightarrow> False)"

section \<open>The booking invariant\<close>

text \<open>
  Non-terminal statuses, the half-open overlap of two appointments' windows, and the
  rule that no two distinct appointments of one seller with overlapping windows are
  both non-terminal.
\<close>

definition nonTerminal :: "AppointmentStatus \<Rightarrow> bool" where
  "nonTerminal st \<longleftrightarrow> st = PENDING \<or> st = CONFIRMED \<or> st = IN_PROGRESS"

definition windowsOverlap :: "Appointment \<Rightarrow> Appointment \<Rightarrow> bool" where
  "windowsOverlap a b \<longleftrightarrow>
     appt_scheduledTimeStart a < appt_scheduledTimeEnd b
   \<and> appt_scheduledTimeStart b < appt_scheduledTimeEnd a"

definition noDoubleBooking :: "db \<Rightarrow> bool" where
  "noDoubleBooking s \<longleftrightarrow>
     (\<forall>a \<in> set (appointments s). \<forall>b \<in> set (appointments s).
        appt_id a \<noteq> appt_id b \<and> appt_sellerId a = appt_sellerId b \<and> windowsOverlap a b
        \<longrightarrow> \<not> (nonTerminal (appt_status a) \<and> nonTerminal (appt_status b)))"

text \<open>The store hands out each key once.\<close>

definition keysFresh :: "db \<Rightarrow> bool" where
  "keysFresh s \<longleftrightarrow>
     distinct (map appt_id (appointments s))
   \<and> (\<forall>a \<in> set (appointments s). appt_id a < nextId s)"

text \<open>
  The server handles many requests at a time. A configuration is the store together
  with the calls in flight. From a store without appointments and no call, a request
  for either operation may arrive at any moment (\<open>cancelAppointment\<close> is a request
  for \<open>updateAppointmentStatus\<close>), and any call in flight may be the next one whose
  query the store answers, whatever writes the store refuses.
\<close>

inductive reachable :: "db \<Rightarrow> call list \<Rightarrow> bool" where
  start: "appointments s = [] \<Longrightarrow> reachable s []"
| create: "reachable s cs \<Longrightarrow> reachable s (cs @ [CreateAppointment buyerId appointmentData])"
| update: "reachable s cs \<Longrightarrow>
           reachable s (cs @ [UpdateAppointmentStatus appointmentId newStatus changedBy notes])"
| answer: "reachable s cs \<Longrightarrow> i < length cs \<Longrightarrow> resume f s (cs ! i) = (c', s')
           \<Longrightarrow> reachable s' (cs[i := c'])"

section \<open>Example data\<close>

text \<open>
  A seller (id 7) with one active 60-minute service (id 3), open on Mondays from 09:00
  to 12:00, and nothing booked. \<open>monday\<close> is Monday 1 January 2024, 00:00.
\<close>

definition monday :: instant where
  "monday = 1704067200000"

definition exSeller :: Seller where
  "exSeller = \<lparr> seller_id = 7, isApproved = True \<rparr>"

definition exService :: Service where
  "exService = \<lparr> service_id = 3, service_sellerId = 7, durationMinutes = 60, price = 100,
                 service_isActive = True \<rparr>"

definition exMondayHours :: SellerAvailability where
  "exMondayHours = \<lparr> avail_sellerId = 7, avail_dayOfWeek = 1, avail_startTime = ''09:00'',
                     avail_endTime = ''12:00'', avail_isAvailable = True \<rparr>"

definition exDb :: db where
  "exDb = \<lparr> sellers = [exSeller], services = [exService], appointments = [],
            statusHistory = [], sellerAvailability = [exMondayHours], sellerTimeOff = [],
            nextId = 10 \<rparr>"

text \<open>The booking of Monday 09:00 to 10:00 by buyer 5, and the store after it.\<close>

definition exNine :: AppointmentCreateData where
  "exNine = \<lparr> cd_serviceId = 3, cd_scheduledDate = monday,
              cd_scheduledTimeStart = monday + 9 * 3600000,
              cd_scheduledTimeEnd = monday + 10 * 3600000 \<rparr>"

definition exNineRow :: Appointment where
  "exNineRow = \<lparr> appt_id = 10, appt_buyerId = 5, appt_sellerId = 7, appt_serviceId = 3,
                 appt_scheduledDate = monday,
                 appt_scheduledTimeStart = monday + 9 * 3600000,
                 appt_scheduledTimeEnd = monday + 10 * 3600000,
                 appt_totalAmount = 100, appt_status = PENDING \<rparr>"

definition exCreatedRow :: StatusHistory where
  "exCreatedRow = \<lparr> hist_appointmentId = 10, hist_status = PENDING,
                    hist_notes = Some ''Appointment created'', hist_changedBy = 5 \<rparr>"

definition exBooked :: db where
  "exBooked = exDb \<lparr> appointments := [exNineRow], statusHistory := [exCreatedRow], nextId := 11 \<rparr>"

text \<open>
  The same window booked by buyer 6 as well, and the store that holds both bookings.
\<close>

definition exNineAgainRow :: Appointment where
  "exNineAgainRow = \<lparr> appt_id = 11, appt_buyerId = 6, appt_sellerId = 7, appt_serviceId = 3,
                      appt_scheduledDate = monday,
                      appt_scheduledTimeStart = monday + 9 * 3600000,
                      appt_scheduledTimeEnd = monday + 10 * 3600000,
                      appt_totalAmount = 100, appt_status = PENDING \<rparr>"

definition exCreatedAgainRow :: StatusHistory where
  "exCreatedAgainRow = \<lparr> hist_appointmentId = 11, hist_status = PENDING,
                         hist_notes = Some ''Appointment created'', hist_changedBy = 6 \<rparr>"

definition exDoubleBooked :: db where
  "exDoubleBooked = exDb \<lparr> appointments := [exNineRow, exNineAgainRow],
                           statusHistory := [exCreatedRow, exCreatedAgainRow], nextId := 12 \<rparr>"

text \<open>A booking of half an hour for the 60-minute service.\<close>

definition exHalfHour :: AppointmentCreateData where
  "exHalfHour = \<lparr> cd_serviceId = 3, cd_scheduledDate = monday,
                  cd_scheduledTimeStart = monday + 9 * 3600000,
                  cd_scheduledTimeEnd = monday + 9 * 3600000 + 30 * 60000 \<rparr>"

text \<open>The same store with the seller not approved.\<close>

definition exUnapproved :: Seller where
  "exUnapproved = \<lparr> seller_id = 7, isApproved = False \<rparr>"

definition exUnapprovedDb :: db where
  "exUnapprovedDb = exDb \<lparr> sellers := [exUnapproved] \<rparr>"

text \<open>A booking on the Tuesday, a weekday for which the seller has no availability row.\<close>

definition tuesday :: instant where
  "tuesday = 1704153600000"

definition exTuesdayNine :: AppointmentCreateData where
  "exTuesdayNine = \<lparr> cd_serviceId = 3, cd_scheduledDate = tuesday,
                     cd_scheduledTimeStart = tuesday + 9 * 3600000,
                     cd_scheduledTimeEnd = tuesday + 10 * 3600000 \<rparr>"

text \<open>The booked store with the appointment in progress.\<close>

definition exInProgress :: db where
  "exInProgress = exBooked \<lparr> appointments := [exNineRow \<lparr> appt_status := IN_PROGRESS \<rparr>] \<rparr>"

text \<open>The time-off row for the Monday, and the store that holds it.\<close>

definition exMondayOff :: SellerTimeOff where
  "exMondayOff = \<lparr> off_id = 10, off_sellerId = 7, off_startDate = monday, off_endDate = tuesday,
                   off_reason = None, off_isActive = True \<rparr>"

definition exOnLeave :: db where
  "exOnLeave = exDb \<lparr> sellerTimeOff := [exMondayOff] \<rparr>"

text \<open>
  The same seller with Monday hours entered as "8:00" to "9:30", which the validator's
  pattern admits (the hour may have one digit) and its range check accepts.
\<close>

definition exUnpaddedHours :: SellerAvailability where
  "exUnpaddedHours = \<lparr> avail_sellerId = 7, avail_dayOfWeek = 1, avail_startTime = ''8:00'',
                       avail_endTime = ''9:30'', avail_isAvailable = True \<rparr>"

definition exUnpadded :: db where
  "exUnpadded = exDb \<lparr> sellerAvailability := [exUnpaddedHours] \<rparr>"

text \<open>Monday, 10:10:25.500.\<close>

definition exTenPastTen :: instant where
  "exTenPastTen = monday + 10 * 3600000 + 10 * 60000 + 25500"

section \<open>The status state machine\<close>

lemma find_status_update:
  "find (\<lambda>a. appt_id a = i)
     (map (\<lambda>a. if appt_id a = i then a\<lparr> appt_status := n \<rparr> else a) xs)
   = map_option (\<lambda>a. a\<lparr> appt_status := n \<rparr>) (find (\<lambda>a. appt_id a = i) xs)"
  by (induction xs) auto

lemma member_validTransitions:
  "List.member (validTransitions cur) new \<longleftrightarrow>
     (cur, new) \<in> {(PENDING, CONFIRMED), (PENDING, CANCELLED), (CONFIRMED, IN_PROGRESS),
                     (CONFIRMED, CANCELLED), (IN_PROGRESS, COMPLETED), (IN_PROGRESS, CANCELLED)}"
  by (cases cur; cases new) simp_all

lemma update_accepted:
  assumes "find (\<lambda>a. appt_id a = appointmentId) (appointments s) = Some appointment"
      and "List.member (validTransitions (appt_status appointment)) newStatus"
  shows "\<exists>details s'. updateAppointmentStatus noFaults s appointmentId newStatus changedBy notes
            = (Inr details, s')"
  using assms
  by (simp add: updateAppointmentStatus_def transaction_def appointment_update_def
        statusHistory_create_def noFaults_def getAppointmentById_def find_status_update)

lemma update_refused:
  assumes "find (\<lambda>a. appt_id a = appointmentId) (appointments s) = Some appointment"
      and "\<not> List.member (validTransitions (appt_status appointment)) newStatus"
  shows "updateAppointmentStatus f s appointmentId newStatus changedBy notes
            = (Inl (InvalidStatusTransition (appt_status appointment) newStatus), s)"
  using assms by (simp add: updateAppointmentStatus_def)

text \<open>
  C2. For an existing appointment and any requested status, \<open>updateAppointmentStatus\<close>
  (the store accepting the writes) succeeds exactly when the pair (current status, new
  status) is in the table PENDING to CONFIRMED or CANCELLED, CONFIRMED to IN_PROGRESS or
  CANCELLED, IN_PROGRESS to COMPLETED or CANCELLED. Every other pair, so every
  transition out of COMPLETED or CANCELLED and every self-transition, fails with the
  error that names the current and the requested status, and the store is unchanged.
\<close>

theorem updateAppointmentStatus_transition_table:
  assumes "find (\<lambda>a. appt_id a = appointmentId) (appointments s) = Some appointment"
  shows "((\<exists>details s'. updateAppointmentStatus noFaults s appointmentId newStatus changedBy notes
              = (Inr details, s'))
          \<longleftrightarrow> (appt_status appointment, newStatus) \<in>
                {(PENDING, CONFIRMED), (PENDING, CANCELLED), (CONFIRMED, IN_PROGRESS),
                 (CONFIRMED, CANCELLED), (IN_PROGRESS, COMPLETED), (IN_PROGRESS, CANCELLED)})
       \<and> ((appt_status appointment, newStatus) \<notin>
                {(PENDING, CONFIRMED), (PENDING, CANCELLED), (CONFIRMED, IN_PROGRESS),
                 (CONFIRMED, CANCELLED), (IN_PROGRESS, COMPLETED), (IN_PROGRESS, CANCELLED)}
            \<longrightarrow> updateAppointmentStatus f s appointmentId newStatus changedBy notes
                  = (Inl (InvalidStatusTransition (appt_status appointment) newStatus), s)
              \<and> message (InvalidStatusTransition (appt_status appointment) newStatus)
                  = ''Cannot change status from '' @ statusName (appt_status appointment)
                      @ '' to '' @ statusName newStatus)"
proof (cases "List.member (validTransitions (appt_status appointment)) newStatus")
  case True
  from update_accepted [OF assms True] True show ?thesis
    unfolding member_validTransitions by blast
next
  case False
  have "updateAppointmentStatus noFaults s appointmentId newStatus changedBy notes
          = (Inl (InvalidStatusTransition (appt_status appointment) newStatus), s)"
    by (rule update_refused [OF assms False])
  moreover have "updateAppointmentStatus f s appointmentId newStatus changedBy notes
          = (Inl (InvalidStatusTransition (appt_status appointment) newStatus), s)"
    by (rule update_refused [OF assms False])
  ultimately show ?thesis using False
    unfolding member_validTransitions by simp
qed

text \<open>
  On the booked example: the pending appointment 10 can be confirmed, and cannot be
  completed directly.
\<close>

theorem updateAppointmentStatus_transition_table_witness:
  "find (\<lambda>a. appt_id a = 10) (appointments exBooked) = Some exNineRow
   \<and> (\<exists>details s'. updateAppointmentStatus noFaults exBooked 10 CONFIRMED 7 None = (Inr details, s'))
   \<and> updateAppointmentStatus noFaults exBooked 10 COMPLETED 7 None
       = (Inl (InvalidStatusTransition PENDING COMPLETED), exBooked)"
proof -
  have found: "find (\<lambda>a. appt_id a = 10) (appointments exBooked) = Some exNineRow"
    by (simp add: exBooked_def exNineRow_def)
  have pending: "appt_status exNineRow = PENDING"
    by (simp add: exNineRow_def)
  show ?thesis
    using found
      updateAppointmentStatus_transition_table [OF found, of CONFIRMED 7 None noFaults]
      updateAppointmentStatus_transition_table [OF found, of COMPLETED 7 None noFaults]
    by (simp add: pending)
qed

section \<open>Creating an appointment\<close>

lemma newAppointmentRow_sel [simp]:
  "appt_id (newAppointmentRow s buyerId sellerId d amount) = nextId s"
  "appt_sellerId (newAppointmentRow s buyerId sellerId d amount) = sellerId"
  "appt_status (newAppointmentRow s buyerId sellerId d amount) = PENDING"
  "appt_scheduledTimeStart (newAppointmentRow s buyerId sellerId d amount) = cd_scheduledTimeStart d"
  "appt_scheduledTimeEnd (newAppointmentRow s buyerId sellerId d amount) = cd_scheduledTimeEnd d"
  by (simp_all add: newAppointmentRow_def)

text \<open>The transaction of \<open>createAppointment\<close>: both rows, or the store as it was.\<close>

lemma create_transaction:
  "transaction (\<lambda>tx.
      case appointment_create fe buyerId sellerId d amount tx of
        Inl e \<Rightarrow> Inl e
      | Inr (tx1, newAppointment) \<Rightarrow>
          (case statusHistory_create fh (appt_id newAppointment) PENDING notes buyerId tx1 of
             Inl e \<Rightarrow> Inl e
           | Inr tx2 \<Rightarrow> Inr (tx2, newAppointment))) s
   = (if fe \<or> fh then (Inl DatabaseError, s)
      else (Inr (newAppointmentRow s buyerId sellerId d amount),
            s\<lparr> appointments := appointments s @ [newAppointmentRow s buyerId sellerId d amount],
               nextId := Suc (nextId s),
               statusHistory := statusHistory s @
                 [\<lparr> hist_appointmentId = nextId s, hist_status = PENDING,
                    hist_notes = notes, hist_changedBy = buyerId \<rparr>] \<rparr>))"
  by (simp add: transaction_def appointment_create_def statusHistory_create_def Let_def)

text \<open>Past its four checks, \<open>createAppointment\<close> is that transaction and the read-back.\<close>

lemma createAppointment_persist:
  assumes "findActiveService s (cd_serviceId d) = Some (service, seller)"
      and "isApproved seller"
      and "cd_scheduledTimeEnd d = cd_scheduledTimeStart d + durationMinutes service * 60000"
      and "checkTimeSlotAvailability s (seller_id seller) (cd_scheduledTimeStart d) (cd_scheduledTimeEnd d)"
  shows "createAppointment f s buyerId d =
     (if failEntityWrite f \<or> failHistoryWrite f then (Inl DatabaseError, s)
      else (getAppointmentById
              (s\<lparr> appointments := appointments s @
                     [newAppointmentRow s buyerId (seller_id seller) d (price service)],
                 nextId := Suc (nextId s),
                 statusHistory := statusHistory s @
                   [\<lparr> hist_appointmentId = nextId s, hist_status = PENDING,
                      hist_notes = Some ''Appointment created'', hist_changedBy = buyerId \<rparr>] \<rparr>)
              (nextId s),
            s\<lparr> appointments := appointments s @
                   [newAppointmentRow s buyerId (seller_id seller) d (price service)],
               nextId := Suc (nextId s),
               statusHistory := statusHistory s @
                 [\<lparr> hist_appointmentId = nextId s, hist_status = PENDING,
                    hist_notes = Some ''Appointment created'', hist_changedBy = buyerId \<rparr>] \<rparr>))"
proof -
  have chk: "checkTimeSlotAvailability s (seller_id seller) (cd_scheduledTimeStart d)
       (cd_scheduledTimeStart d + durationMinutes service * 60000)"
    using assms(3,4) by simp
  show ?thesis
    unfolding createAppointment_def Let_def create_transaction
    by (simp add: assms(1,2,3) chk)
qed

lemma find_append_last: "P a \<Longrightarrow> find P (xs @ [a]) \<noteq> None"
  by (induction xs) auto

lemma getAppointmentById_found:
  "find (\<lambda>a. appt_id a = i) (appointments s) \<noteq> None
     \<Longrightarrow> \<exists>details. getAppointmentById s i = Inr details"
  by (auto simp: getAppointmentById_def)

lemma createAppointment_succeeds:
  assumes "findActiveService s (cd_serviceId d) = Some (service, seller)"
      and "isApproved seller"
      and "cd_scheduledTimeEnd d = cd_scheduledTimeStart d + durationMinutes service * 60000"
      and "checkTimeSlotAvailability s (seller_id seller) (cd_scheduledTimeStart d) (cd_scheduledTimeEnd d)"
  shows "\<exists>details s'. createAppointment noFaults s buyerId d = (Inr details, s')
           \<and> appointments s' = appointments s @
                [newAppointmentRow s buyerId (seller_id seller) d (price service)]"
proof -
  let ?s' = "s\<lparr> appointments := appointments s @
                   [newAppointmentRow s buyerId (seller_id seller) d (price service)],
                 nextId := Suc (nextId s),
                 statusHistory := statusHistory s @
                   [\<lparr> hist_appointmentId = nextId s, hist_status = PENDING,
                      hist_notes = Some ''Appointment created'', hist_changedBy = buyerId \<rparr>] \<rparr>"
  have "find (\<lambda>a. appt_id a = nextId s) (appointments ?s') \<noteq> None"
    by (simp add: find_append_last)
  then obtain details where "getAppointmentById ?s' (nextId s) = Inr details"
    using getAppointmentById_found by blast
  then have "createAppointment noFaults s buyerId d = (Inr details, ?s')"
    by (simp add: createAppointment_persist [OF assms] noFaults_def)
  then show ?thesis by simp
qed

lemma exDb_service:
  "findActiveService exDb 3 = Some (exService, exSeller)"
  "findService exDb 3 = Some (exService, exSeller)"
  by (simp_all add: findActiveService_def findService_def withSeller_def exDb_def exService_def
        exSeller_def)

text \<open>
  C5, as the claim has it, at a service whose seller is not approved: the window is half
  an hour, the service lasts 60 minutes, and the error is the approval one.
\<close>

theorem createAppointment_mismatch_unapproved_counterexample:
  "cd_scheduledTimeEnd exHalfHour
      \<noteq> cd_scheduledTimeStart exHalfHour + durationMinutes exService * 60000
   \<and> findActiveService exUnapprovedDb (cd_serviceId exHalfHour) = Some (exService, exUnapproved)
   \<and> createAppointment noFaults exUnapprovedDb 5 exHalfHour = (Inl SellerNotApproved, exUnapprovedDb)"
  by (simp add: createAppointment_def findActiveService_def withSeller_def exUnapprovedDb_def
        exDb_def exHalfHour_def exService_def exUnapproved_def)

text \<open>
  C5, amended. For every \<open>createAppointment\<close> call on an active service whose window
  differs from \<open>scheduledTimeStart + durationMinutes\<close>, the call fails and the store is
  unchanged: with the duration-mismatch error when the seller of the service is
  approved, and with the approval error, raised first, when the seller is not.
\<close>

theorem createAppointment_duration_mismatch:
  assumes "findActiveService s (cd_serviceId appointmentData) = Some (service, seller)"
      and "cd_scheduledTimeEnd appointmentData
             \<noteq> cd_scheduledTimeStart appointmentData + durationMinutes service * 60000"
  shows "createAppointment f s buyerId appointmentData
           = (Inl (if isApproved seller then DurationMismatch (durationMinutes service)
                   else SellerNotApproved), s)"
  using assms by (simp add: createAppointment_def Let_def)

theorem createAppointment_duration_mismatch_witness:
  "createAppointment noFaults exDb 5 exHalfHour = (Inl (DurationMismatch 60), exDb)
   \<and> message (DurationMismatch 60) = ''Appointment duration must be 60 minutes for this service''"
proof -
  have a: "findActiveService exDb (cd_serviceId exHalfHour) = Some (exService, exSeller)"
    by (simp add: exDb_service exHalfHour_def)
  have b: "cd_scheduledTimeEnd exHalfHour
             \<noteq> cd_scheduledTimeStart exHalfHour + durationMinutes exService * 60000"
    by (simp add: exHalfHour_def exService_def)
  have c: "message (DurationMismatch 60)
             = ''Appointment duration must be 60 minutes for this service''"
    by code_simp
  show ?thesis
    using createAppointment_duration_mismatch [OF a b, of noFaults 5] c
    by (simp add: exSeller_def exService_def)
qed

section \<open>The conflict check\<close>

lemma overlapWhere_complete:
  "startTime < rowEnd \<Longrightarrow> rowStart < endTime \<Longrightarrow> overlapWhere rowStart rowEnd startTime endTime"
  unfolding overlapWhere_def by arith

lemma overlapWhere_half_open:
  "startTime < endTime \<Longrightarrow> rowStart < rowEnd \<Longrightarrow>
   overlapWhere rowStart rowEnd startTime endTime \<longleftrightarrow> startTime < rowEnd \<and> rowStart < endTime"
  unfolding overlapWhere_def by arith

text \<open>On an empty candidate the two tests differ: \<open>[5, 5)\<close> against \<open>[5, 8)\<close>.\<close>

lemma overlapWhere_empty_candidate:
  "overlapWhere 5 8 5 5 \<and> \<not> ((5::int) < 8 \<and> (5::int) < 5)"
  by (simp add: overlapWhere_def)

lemma checkTimeSlotAvailability_iff:
  "checkTimeSlotAvailability s sellerId startTime endTime \<longleftrightarrow>
     (\<forall>a \<in> set (appointments s).
        \<not> (appt_sellerId a = sellerId \<and> appt_status a \<in> {PENDING, CONFIRMED, IN_PROGRESS}
           \<and> overlapWhere (appt_scheduledTimeStart a) (appt_scheduledTimeEnd a) startTime endTime))"
  by (simp add: checkTimeSlotAvailability_def filter_empty_conv)

lemma isSellerAvailable_available:
  "available (isSellerAvailable s sellerId date startTime endTime) \<Longrightarrow>
     (\<forall>a \<in> set (appointments s).
        \<not> (appt_sellerId a = sellerId \<and> appt_status a \<in> {PENDING, CONFIRMED, IN_PROGRESS}
           \<and> overlapWhere (appt_scheduledTimeStart a) (appt_scheduledTimeEnd a) startTime endTime))"
  by (auto simp: isSellerAvailable_def Let_def unavailable_def filter_empty_conv
           split: option.splits if_splits)

lemma isSellerAvailable_booked:
  "reason (isSellerAvailable s sellerId date startTime endTime) = Some ''Time slot is already booked''
   \<Longrightarrow> (\<exists>a \<in> set (appointments s).
        appt_sellerId a = sellerId \<and> appt_status a \<in> {PENDING, CONFIRMED, IN_PROGRESS}
           \<and> overlapWhere (appt_scheduledTimeStart a) (appt_scheduledTimeEnd a) startTime endTime)"
  by (auto simp: isSellerAvailable_def Let_def unavailable_def filter_empty_conv
           split: option.splits if_splits)

text \<open>
  What \<open>isSellerAvailable\<close> answers: available exactly when the weekday has a row
  marked available whose hours hold the start time, no active time off covers the date,
  and the count of overlapping appointments is zero; "already booked" exactly when the
  first three hold and the count is not zero.
\<close>

lemma isSellerAvailable_iff:
  "available (isSellerAvailable s sellerId date startTime endTime) \<longleftrightarrow>
     (\<exists>r. find (\<lambda>r. avail_sellerId r = sellerId \<and> avail_dayOfWeek r = getDay date)
              (sellerAvailability s) = Some r
          \<and> avail_isAvailable r
          \<and> avail_startTime r \<le> timeString startTime \<and> timeString startTime < avail_endTime r)
   \<and> find (\<lambda>t. off_sellerId t = sellerId \<and> off_isActive t
                \<and> off_startDate t \<le> date \<and> off_endDate t \<ge> date) (sellerTimeOff s) = None
   \<and> \<not> (\<exists>a \<in> set (appointments s).
          appt_sellerId a = sellerId \<and> appt_status a \<in> {PENDING, CONFIRMED, IN_PROGRESS}
        \<and> overlapWhere (appt_scheduledTimeStart a) (appt_scheduledTimeEnd a) startTime endTime)"
proof (cases "find (\<lambda>r. avail_sellerId r = sellerId \<and> avail_dayOfWeek r = getDay date)
                (sellerAvailability s)")
  case None
  then show ?thesis by (simp add: isSellerAvailable_def unavailable_def)
next
  case row: (Some r)
  show ?thesis
  proof (cases "find (\<lambda>t. off_sellerId t = sellerId \<and> off_isActive t
                \<and> off_startDate t \<le> date \<and> off_endDate t \<ge> date) (sellerTimeOff s)")
    case None
    then show ?thesis using row
      by (auto simp add: isSellerAvailable_def unavailable_def Let_def filter_empty_conv
            simp del: find_None_iff find_None_iff2)
  next
    case (Some t)
    then show ?thesis using row
      by (simp add: isSellerAvailable_def unavailable_def Let_def)
  qed
qed

lemma isSellerAvailable_booked_iff:
  "reason (isSellerAvailable s sellerId date startTime endTime) = Some ''Time slot is already booked''
   \<longleftrightarrow>
     (\<exists>r. find (\<lambda>r. avail_sellerId r = sellerId \<and> avail_dayOfWeek r = getDay date)
              (sellerAvailability s) = Some r
          \<and> avail_isAvailable r
          \<and> avail_startTime r \<le> timeString startTime \<and> timeString startTime < avail_endTime r)
   \<and> find (\<lambda>t. off_sellerId t = sellerId \<and> off_isActive t
                \<and> off_startDate t \<le> date \<and> off_endDate t \<ge> date) (sellerTimeOff s) = None
   \<and> (\<exists>a \<in> set (appointments s).
          appt_sellerId a = sellerId \<and> appt_status a \<in> {PENDING, CONFIRMED, IN_PROGRESS}
        \<and> overlapWhere (appt_scheduledTimeStart a) (appt_scheduledTimeEnd a) startTime endTime)"
proof (cases "find (\<lambda>r. avail_sellerId r = sellerId \<and> avail_dayOfWeek r = getDay date)
                (sellerAvailability s)")
  case None
  then show ?thesis by (simp add: isSellerAvailable_def unavailable_def)
next
  case row: (Some r)
  show ?thesis
  proof (cases "find (\<lambda>t. off_sellerId t = sellerId \<and> off_isActive t
                \<and> off_startDate t \<le> date \<and> off_endDate t \<ge> date) (sellerTimeOff s)")
    case None
    then show ?thesis using row
      by (auto simp add: isSellerAvailable_def unavailable_def Let_def filter_empty_conv
            simp del: find_None_iff find_None_iff2)
  next
    case (Some t)
    then show ?thesis using row
      by (simp add: isSellerAvailable_def unavailable_def Let_def)
  qed
qed

text \<open>
  C3. For a non-empty candidate interval \<open>[startTime, endTime)\<close> and non-empty stored
  intervals, the three-clause test is the half-open rule \<open>a < d \<and> c < b\<close>, and both
  conflict checks decide by it, consulting only the seller's appointments in status
  PENDING, CONFIRMED or IN_PROGRESS, so that a COMPLETED or CANCELLED appointment never
  causes a conflict. \<open>checkTimeSlotAvailability\<close> answers yes exactly when no such
  appointment overlaps the candidate. \<open>isSellerAvailable\<close>, past its tests of the
  weekday's hours and of time off, answers available exactly when no such appointment
  overlaps the candidate, and "already booked" exactly when one does.
\<close>

theorem conflict_check_half_open:
  assumes "startTime < endTime"
      and "\<forall>a \<in> set (appointments s). appt_scheduledTimeStart a < appt_scheduledTimeEnd a"
  shows "(checkTimeSlotAvailability s sellerId startTime endTime \<longleftrightarrow>
            \<not> (\<exists>a \<in> set (appointments s). appt_sellerId a = sellerId
                  \<and> appt_status a \<in> {PENDING, CONFIRMED, IN_PROGRESS}
                  \<and> startTime < appt_scheduledTimeEnd a \<and> appt_scheduledTimeStart a < endTime))
       \<and> (available (isSellerAvailable s sellerId date startTime endTime) \<longleftrightarrow>
            (\<exists>r. find (\<lambda>r. avail_sellerId r = sellerId \<and> avail_dayOfWeek r = getDay date)
                     (sellerAvailability s) = Some r
                 \<and> avail_isAvailable r
                 \<and> avail_startTime r \<le> timeString startTime
                 \<and> timeString startTime < avail_endTime r)
          \<and> find (\<lambda>t. off_sellerId t = sellerId \<and> off_isActive t
                       \<and> off_startDate t \<le> date \<and> off_endDate t \<ge> date)
                (sellerTimeOff s) = None
          \<and> \<not> (\<exists>a \<in> set (appointments s). appt_sellerId a = sellerId
                  \<and> appt_status a \<in> {PENDING, CONFIRMED, IN_PROGRESS}
                  \<and> startTime < appt_scheduledTimeEnd a \<and> appt_scheduledTimeStart a < endTime))
       \<and> (reason (isSellerAvailable s sellerId date startTime endTime)
              = Some ''Time slot is already booked'' \<longleftrightarrow>
            (\<exists>r. find (\<lambda>r. avail_sellerId r = sellerId \<and> avail_dayOfWeek r = getDay date)
                     (sellerAvailability s) = Some r
                 \<and> avail_isAvailable r
                 \<and> avail_startTime r \<le> timeString startTime
                 \<and> timeString startTime < avail_endTime r)
          \<and> find (\<lambda>t. off_sellerId t = sellerId \<and> off_isActive t
                       \<and> off_startDate t \<le> date \<and> off_endDate t \<ge> date)
                (sellerTimeOff s) = None
          \<and> (\<exists>a \<in> set (appointments s). appt_sellerId a = sellerId
                  \<and> appt_status a \<in> {PENDING, CONFIRMED, IN_PROGRESS}
                  \<and> startTime < appt_scheduledTimeEnd a \<and> appt_scheduledTimeStart a < endTime))
       \<and> (\<forall>c d. c < d \<longrightarrow>
            (overlapWhere c d startTime endTime \<longleftrightarrow> startTime < d \<and> c < endTime))"
proof -
  have eq: "\<And>a. a \<in> set (appointments s) \<Longrightarrow>
      overlapWhere (appt_scheduledTimeStart a) (appt_scheduledTimeEnd a) startTime endTime
      \<longleftrightarrow> startTime < appt_scheduledTimeEnd a \<and> appt_scheduledTimeStart a < endTime"
    using assms by (simp add: overlapWhere_half_open)
  have rows: "(\<exists>a \<in> set (appointments s).
          appt_sellerId a = sellerId \<and> appt_status a \<in> {PENDING, CONFIRMED, IN_PROGRESS}
        \<and> overlapWhere (appt_scheduledTimeStart a) (appt_scheduledTimeEnd a) startTime endTime)
      \<longleftrightarrow> (\<exists>a \<in> set (appointments s). appt_sellerId a = sellerId
                  \<and> appt_status a \<in> {PENDING, CONFIRMED, IN_PROGRESS}
                  \<and> startTime < appt_scheduledTimeEnd a \<and> appt_scheduledTimeStart a < endTime)"
    using eq by blast
  have 1: "checkTimeSlotAvailability s sellerId startTime endTime \<longleftrightarrow>
            \<not> (\<exists>a \<in> set (appointments s). appt_sellerId a = sellerId
                  \<and> appt_status a \<in> {PENDING, CONFIRMED, IN_PROGRESS}
                  \<and> startTime < appt_scheduledTimeEnd a \<and> appt_scheduledTimeStart a < endTime)"
    unfolding checkTimeSlotAvailability_iff using eq by blast
  note 2 = isSellerAvailable_iff [of s sellerId date startTime endTime, unfolded rows]
  note 3 = isSellerAvailable_booked_iff [of s sellerId date startTime endTime, unfolded rows]
  have 4: "\<forall>c d. c < d \<longrightarrow>
            (overlapWhere c d startTime endTime \<longleftrightarrow> startTime < d \<and> c < endTime)"
    using assms(1) by (simp add: overlapWhere_half_open)
  show ?thesis
    by (intro conjI) (rule 1, rule 2, rule 3, rule 4)
qed

text \<open>
  On the booked example (09:00 to 10:00 pending, hours 09:00 to 12:00, no time off):
  09:30 to 10:30 conflicts and 10:00 to 11:00 does not, for both checks.
\<close>

theorem conflict_check_half_open_witness:
  "\<not> checkTimeSlotAvailability exBooked 7 (monday + 9 * 3600000 + 30 * 60000)
        (monday + 10 * 3600000 + 30 * 60000)
   \<and> checkTimeSlotAvailability exBooked 7 (monday + 10 * 3600000) (monday + 11 * 3600000)
   \<and> \<not> available (isSellerAvailable exBooked 7 monday (monday + 9 * 3600000 + 30 * 60000)
        (monday + 10 * 3600000 + 30 * 60000))
   \<and> reason (isSellerAvailable exBooked 7 monday (monday + 9 * 3600000 + 30 * 60000)
        (monday + 10 * 3600000 + 30 * 60000)) = Some ''Time slot is already booked''
   \<and> available (isSellerAvailable exBooked 7 monday (monday + 10 * 3600000)
        (monday + 11 * 3600000))"
proof -
  have rows: "\<forall>a \<in> set (appointments exBooked). appt_scheduledTimeStart a < appt_scheduledTimeEnd a"
    by (simp add: exBooked_def exNineRow_def)
  have a: "monday + 9 * 3600000 + 30 * 60000 < monday + 10 * 3600000 + 30 * 60000"
    by simp
  have b: "monday + 10 * 3600000 < monday + 11 * 3600000"
    by simp
  have row: "find (\<lambda>r. avail_sellerId r = 7 \<and> avail_dayOfWeek r = getDay monday)
               (sellerAvailability exBooked) = Some exMondayHours"
    by code_simp
  have "open": "avail_isAvailable exMondayHours"
    by (simp add: exMondayHours_def)
  have half_past: "avail_startTime exMondayHours \<le> timeString (monday + 9 * 3600000 + 30 * 60000)
      \<and> timeString (monday + 9 * 3600000 + 30 * 60000) < avail_endTime exMondayHours"
    by code_simp
  have ten: "avail_startTime exMondayHours \<le> timeString (monday + 10 * 3600000)
      \<and> timeString (monday + 10 * 3600000) < avail_endTime exMondayHours"
    by code_simp
  have off: "find (\<lambda>t. off_sellerId t = 7 \<and> off_isActive t
                       \<and> off_startDate t \<le> monday \<and> off_endDate t \<ge> monday)
                (sellerTimeOff exBooked) = None"
    by (simp add: exBooked_def exDb_def)
  have booked: "appointments exBooked = [exNineRow]"
    by (simp add: exBooked_def)
  have nine: "appt_sellerId exNineRow = 7" "appt_status exNineRow = PENDING"
      "appt_scheduledTimeStart exNineRow = monday + 9 * 3600000"
      "appt_scheduledTimeEnd exNineRow = monday + 10 * 3600000"
    by (simp_all add: exNineRow_def)
  show ?thesis
    using conflict_check_half_open [OF a rows, of 7 monday]
          conflict_check_half_open [OF b rows, of 7 monday]
          row "open" half_past ten off
    by (simp add: booked nine)
qed

section \<open>Unknown services\<close>

lemma findService_None:
  "find (\<lambda>v. service_id v = serviceId) (services s) = None \<Longrightarrow> findService s serviceId = None"
  by (simp add: findService_def withSeller_def)

text \<open>
  C10. For a \<open>serviceId\<close> that identifies no service, \<open>getNextAvailableSlot\<close> and
  \<open>getAvailableTimeSlots\<close> throw "Service not found"; a slot or \<open>null\<close>, and a list
  of slots, empty or not, are returned for existing services only.
\<close>

theorem unknown_service_throws:
  "(find (\<lambda>v. service_id v = serviceId) (services s) = None \<longrightarrow>
       getNextAvailableSlot s now serviceId fromDate daysAhead = Inl ServiceNotFound
     \<and> getAvailableTimeSlots s serviceId date intervalMinutes = Some (Inl ServiceNotFound)
     \<and> message ServiceNotFound = ''Service not found'')
   \<and> (getNextAvailableSlot s now serviceId fromDate daysAhead = Inr slot \<longrightarrow>
        find (\<lambda>v. service_id v = serviceId) (services s) \<noteq> None)
   \<and> (getAvailableTimeSlots s serviceId date intervalMinutes = Some (Inr slots) \<longrightarrow>
        find (\<lambda>v. service_id v = serviceId) (services s) \<noteq> None)"
proof -
  have absent: "getNextAvailableSlot s now serviceId fromDate daysAhead = Inl ServiceNotFound
      \<and> getAvailableTimeSlots s serviceId date intervalMinutes = Some (Inl ServiceNotFound)"
    if "findService s serviceId = None"
    using that by (simp add: getNextAvailableSlot_def getAvailableTimeSlots_def)
  have 1: "find (\<lambda>v. service_id v = serviceId) (services s) = None \<longrightarrow>
       getNextAvailableSlot s now serviceId fromDate daysAhead = Inl ServiceNotFound
     \<and> getAvailableTimeSlots s serviceId date intervalMinutes = Some (Inl ServiceNotFound)
     \<and> message ServiceNotFound = ''Service not found''"
    using absent findService_None [of serviceId s] by (simp del: find_None_iff find_None_iff2)
  have 2: "getNextAvailableSlot s now serviceId fromDate daysAhead = Inr slot \<longrightarrow>
        find (\<lambda>v. service_id v = serviceId) (services s) \<noteq> None"
  proof (intro impI notI)
    assume r: "getNextAvailableSlot s now serviceId fromDate daysAhead = Inr slot"
       and "find (\<lambda>v. service_id v = serviceId) (services s) = None"
    then have "findService s serviceId = None" by (simp add: findService_None)
    from absent [OF this] r show False by simp
  qed
  have 3: "getAvailableTimeSlots s serviceId date intervalMinutes = Some (Inr slots) \<longrightarrow>
        find (\<lambda>v. service_id v = serviceId) (services s) \<noteq> None"
  proof (intro impI notI)
    assume r: "getAvailableTimeSlots s serviceId date intervalMinutes = Some (Inr slots)"
       and "find (\<lambda>v. service_id v = serviceId) (services s) = None"
    then have "findService s serviceId = None" by (simp add: findService_None)
    from absent [OF this] r show False by simp
  qed
  from 1 2 3 show ?thesis by blast
qed

text \<open>Service 4 does not exist in the example store; service 3 does, and Tuesday has no slot.\<close>

theorem unknown_service_throws_witness:
  "getNextAvailableSlot exDb monday 4 monday 30 = Inl ServiceNotFound
   \<and> getAvailableTimeSlots exDb 4 monday 30 = Some (Inl ServiceNotFound)
   \<and> getAvailableTimeSlots exDb 3 tuesday 30 = Some (Inr [])
   \<and> find (\<lambda>v. service_id v = 3) (services exDb) \<noteq> None"
proof -
  have none: "find (\<lambda>v. service_id v = 4) (services exDb) = None"
    by (simp add: exDb_def exService_def)
  have empty: "getAvailableTimeSlots exDb 3 tuesday 30 = Some (Inr [])"
    by code_simp
  from none
    unknown_service_throws [where serviceId = 4 and s = exDb and now = monday
        and fromDate = monday and daysAhead = 30 and date = monday and intervalMinutes = 30
        and slot = None and slots = "[]"]
  have a: "getNextAvailableSlot exDb monday 4 monday 30 = Inl ServiceNotFound
     \<and> getAvailableTimeSlots exDb 4 monday 30 = Some (Inl ServiceNotFound)"
    by blast
  from empty
    unknown_service_throws [where serviceId = 3 and s = exDb and now = monday
        and fromDate = monday and daysAhead = 30 and date = tuesday and intervalMinutes = 30
        and slot = None and slots = "[]"]
  have b: "find (\<lambda>v. service_id v = 3) (services exDb) \<noteq> None"
    by blast
  from a b empty show ?thesis by blast
qed

section \<open>A weekday without availability rows\<close>

lemma no_rows_for_day:
  assumes "\<forall>r \<in> set (sellerAvailability s).
             \<not> (avail_sellerId r = sellerId \<and> avail_dayOfWeek r = dayOfWeek)"
  shows "getSellerAvailabilityForDay s sellerId dayOfWeek = []"
proof -
  have "filter (\<lambda>r. avail_sellerId r = sellerId \<and> avail_dayOfWeek r = dayOfWeek
                    \<and> avail_isAvailable r) (sellerAvailability s) = []"
    using assms by (auto simp: filter_empty_conv)
  then show ?thesis by (simp add: getSellerAvailabilityForDay_def)
qed

text \<open>
  C6. When the seller of a service has no recurring-availability row for the weekday of
  \<open>date\<close>, \<open>getAvailableTimeSlots\<close> for that date returns the empty list, while
  \<open>createAppointment\<close> for a window on the same weekday, given an active service, an
  approved seller, the right duration and no conflicting appointment, succeeds and
  stores the pending appointment.
\<close>

theorem no_availability_row_asymmetry:
  assumes "findService s serviceId = Some (service, seller)"
      and "\<forall>r \<in> set (sellerAvailability s).
             \<not> (avail_sellerId r = seller_id seller \<and> avail_dayOfWeek r = getDay date)"
      and "findActiveService s (cd_serviceId d) = Some (service', seller)"
      and "isApproved seller"
      and "getDay (cd_scheduledTimeStart d) = getDay date"
      and "cd_scheduledTimeEnd d = cd_scheduledTimeStart d + durationMinutes service' * 60000"
      and "checkTimeSlotAvailability s (seller_id seller)
             (cd_scheduledTimeStart d) (cd_scheduledTimeEnd d)"
  shows "getAvailableTimeSlots s serviceId date intervalMinutes = Some (Inr [])
       \<and> (\<exists>details s'. createAppointment noFaults s buyerId d = (Inr details, s')
             \<and> appointments s' = appointments s @
                  [newAppointmentRow s buyerId (seller_id seller) d (price service')])"
proof -
  have "getSellerAvailabilityForDay s (seller_id seller) (getDay date) = []"
    by (rule no_rows_for_day [OF assms(2)])
  then have "getAvailableTimeSlots s serviceId date intervalMinutes = Some (Inr [])"
    using assms(1) by (simp add: getAvailableTimeSlots_def)
  with createAppointment_succeeds [OF assms(3,4,6,7), of buyerId] show ?thesis by blast
qed

text \<open>The example seller has Monday hours only: Tuesday lists nothing and can be booked.\<close>

theorem no_availability_row_asymmetry_witness:
  "getAvailableTimeSlots exDb 3 tuesday 30 = Some (Inr [])
   \<and> (\<exists>details s'. createAppointment noFaults exDb 5 exTuesdayNine = (Inr details, s')
         \<and> appointments s' = [newAppointmentRow exDb 5 7 exTuesdayNine 100])"
proof -
  have a: "findService exDb 3 = Some (exService, exSeller)"
    by (rule exDb_service)
  have b: "\<forall>r \<in> set (sellerAvailability exDb).
             \<not> (avail_sellerId r = seller_id exSeller \<and> avail_dayOfWeek r = getDay tuesday)"
    by (simp add: exDb_def exMondayHours_def getDay_def tuesday_def dayMs_def)
  have c: "findActiveService exDb (cd_serviceId exTuesdayNine) = Some (exService, exSeller)"
    by (simp add: exDb_service exTuesdayNine_def)
  have d: "isApproved exSeller"
    by (simp add: exSeller_def)
  have e: "getDay (cd_scheduledTimeStart exTuesdayNine) = getDay tuesday"
    by (simp add: exTuesdayNine_def getDay_def tuesday_def dayMs_def)
  have f: "cd_scheduledTimeEnd exTuesdayNine
             = cd_scheduledTimeStart exTuesdayNine + durationMinutes exService * 60000"
    by (simp add: exTuesdayNine_def exService_def)
  have g: "checkTimeSlotAvailability exDb (seller_id exSeller)
             (cd_scheduledTimeStart exTuesdayNine) (cd_scheduledTimeEnd exTuesdayNine)"
    by (simp add: checkTimeSlotAvailability_def exDb_def)
  show ?thesis
    using no_availability_row_asymmetry [OF a b c d e f g, of 30 5]
    by (simp add: exSeller_def exService_def exDb_def)
qed

section \<open>Time off\<close>

lemma addTimeOff_unfold:
  "addTimeOff s sellerId startDate endDate why =
     (if find (\<lambda>t. off_sellerId t = sellerId \<and> off_isActive t
                   \<and> overlapWhere (off_startDate t) (off_endDate t) startDate endDate)
             (sellerTimeOff s) \<noteq> None then (Inl TimeOffOverlap, s)
      else if filter (\<lambda>a. appt_sellerId a = sellerId
                \<and> appt_status a \<in> set [PENDING, CONFIRMED]
                \<and> appt_scheduledDate a \<ge> startDate \<and> appt_scheduledDate a \<le> endDate)
                (appointments s) \<noteq> [] then (Inl AppointmentsDuringTimeOff, s)
      else (Inr \<lparr> off_id = nextId s, off_sellerId = sellerId, off_startDate = startDate,
                        off_endDate = endDate, off_reason = why, off_isActive = True \<rparr>,
                  s \<lparr> sellerTimeOff := sellerTimeOff s @
                        [\<lparr> off_id = nextId s, off_sellerId = sellerId, off_startDate = startDate,
                           off_endDate = endDate, off_reason = why, off_isActive = True \<rparr>],
                      nextId := Suc (nextId s) \<rparr>))"
  unfolding addTimeOff_def Let_def
  by (cases "find (\<lambda>t. off_sellerId t = sellerId \<and> off_isActive t
                   \<and> overlapWhere (off_startDate t) (off_endDate t) startDate endDate)
             (sellerTimeOff s)") simp_all

text \<open>
  C7, as the claim has it, at an appointment in progress: the seller's only appointment,
  Monday 09:00 to 10:00, is IN_PROGRESS, a non-terminal status, and lies inside the
  requested range Monday 00:00 to Tuesday 00:00; the time off is created all the same.
\<close>

theorem addTimeOff_in_progress_counterexample:
  "appointments exInProgress = [exNineRow \<lparr> appt_status := IN_PROGRESS \<rparr>]
   \<and> monday \<le> appt_scheduledTimeStart exNineRow \<and> appt_scheduledTimeEnd exNineRow \<le> tuesday
   \<and> monday \<le> appt_scheduledDate exNineRow \<and> appt_scheduledDate exNineRow \<le> tuesday
   \<and> addTimeOff exInProgress 7 monday tuesday None
       = (Inr \<lparr> off_id = 11, off_sellerId = 7, off_startDate = monday, off_endDate = tuesday,
                off_reason = None, off_isActive = True \<rparr>,
          exInProgress \<lparr> sellerTimeOff :=
              [\<lparr> off_id = 11, off_sellerId = 7, off_startDate = monday, off_endDate = tuesday,
                  off_reason = None, off_isActive = True \<rparr>],
            nextId := 12 \<rparr>)"
  by (simp add: addTimeOff_unfold exInProgress_def exBooked_def exDb_def exNineRow_def
        monday_def tuesday_def)

text \<open>
  The count that guards the insert compares the appointment's \<open>scheduledDate\<close>, not
  its window. On the booked example the appointment of Monday 09:00 to 10:00 is pending
  and its \<open>scheduledDate\<close> is Monday 00:00: a time off from Monday 08:00 to Monday
  18:00 is created over it, although the comment above the count and the text of the
  error both speak of appointments during the period.
\<close>

lemma addTimeOff_over_pending_window:
  "appointments exBooked = [exNineRow]
   \<and> appt_sellerId exNineRow = 7 \<and> appt_status exNineRow = PENDING
   \<and> monday + 8 * 3600000 \<le> appt_scheduledTimeStart exNineRow
   \<and> appt_scheduledTimeEnd exNineRow \<le> monday + 18 * 3600000
   \<and> addTimeOff exBooked 7 (monday + 8 * 3600000) (monday + 18 * 3600000) None
       = (Inr \<lparr> off_id = 11, off_sellerId = 7, off_startDate = monday + 8 * 3600000,
                off_endDate = monday + 18 * 3600000, off_reason = None, off_isActive = True \<rparr>,
          exBooked \<lparr> sellerTimeOff :=
              [\<lparr> off_id = 11, off_sellerId = 7, off_startDate = monday + 8 * 3600000,
                  off_endDate = monday + 18 * 3600000, off_reason = None, off_isActive = True \<rparr>],
            nextId := 12 \<rparr>)"
  by (simp add: addTimeOff_unfold exBooked_def exDb_def exNineRow_def monday_def)

text \<open>
  C7, amended. For a non-empty requested range and non-empty stored ranges,
  \<open>addTimeOff\<close> fails, and stores nothing, whenever the range overlaps an active time
  off of the same seller (\<open>startDate < end \<and> start < endDate\<close>), and otherwise fails,
  and stores nothing, whenever the range intersects the window of a PENDING or CONFIRMED
  appointment of that seller whose \<open>scheduledDate\<close> lies within the range. When no
  active time off overlaps and no PENDING or CONFIRMED appointment of the seller has its
  window intersecting the range or its \<open>scheduledDate\<close> within it, a new active
  time-off row is created; appointments in any other status do not count. The statement
  is silent on a PENDING or CONFIRMED appointment for which the window and the
  \<open>scheduledDate\<close> disagree about the range.
\<close>

theorem addTimeOff_outcomes:
  assumes "startDate < endDate"
      and "\<forall>t \<in> set (sellerTimeOff s). off_startDate t < off_endDate t"
  shows "((\<exists>t \<in> set (sellerTimeOff s). off_sellerId t = sellerId \<and> off_isActive t
              \<and> startDate < off_endDate t \<and> off_startDate t < endDate)
            \<longrightarrow> addTimeOff s sellerId startDate endDate why = (Inl TimeOffOverlap, s))
       \<and> (\<not> (\<exists>t \<in> set (sellerTimeOff s). off_sellerId t = sellerId \<and> off_isActive t
              \<and> startDate < off_endDate t \<and> off_startDate t < endDate)
          \<and> (\<exists>a \<in> set (appointments s). appt_sellerId a = sellerId
              \<and> (appt_status a = PENDING \<or> appt_status a = CONFIRMED)
              \<and> startDate < appt_scheduledTimeEnd a \<and> appt_scheduledTimeStart a < endDate
              \<and> startDate \<le> appt_scheduledDate a \<and> appt_scheduledDate a \<le> endDate)
            \<longrightarrow> addTimeOff s sellerId startDate endDate why = (Inl AppointmentsDuringTimeOff, s))
       \<and> (\<not> (\<exists>t \<in> set (sellerTimeOff s). off_sellerId t = sellerId \<and> off_isActive t
              \<and> startDate < off_endDate t \<and> off_startDate t < endDate)
          \<and> \<not> (\<exists>a \<in> set (appointments s). appt_sellerId a = sellerId
              \<and> (appt_status a = PENDING \<or> appt_status a = CONFIRMED)
              \<and> (startDate < appt_scheduledTimeEnd a \<and> appt_scheduledTimeStart a < endDate
                 \<or> startDate \<le> appt_scheduledDate a \<and> appt_scheduledDate a \<le> endDate))
            \<longrightarrow> addTimeOff s sellerId startDate endDate why =
                 (Inr \<lparr> off_id = nextId s, off_sellerId = sellerId, off_startDate = startDate,
                        off_endDate = endDate, off_reason = why, off_isActive = True \<rparr>,
                  s \<lparr> sellerTimeOff := sellerTimeOff s @
                        [\<lparr> off_id = nextId s, off_sellerId = sellerId, off_startDate = startDate,
                           off_endDate = endDate, off_reason = why, off_isActive = True \<rparr>],
                      nextId := Suc (nextId s) \<rparr>))"
proof -
  let ?P = "\<lambda>t. off_sellerId t = sellerId \<and> off_isActive t
                   \<and> overlapWhere (off_startDate t) (off_endDate t) startDate endDate"
  let ?Q = "\<lambda>a. appt_sellerId a = sellerId
                \<and> appt_status a \<in> set [PENDING, CONFIRMED]
                \<and> appt_scheduledDate a \<ge> startDate \<and> appt_scheduledDate a \<le> endDate"
  have ov: "(\<exists>t \<in> set (sellerTimeOff s). off_sellerId t = sellerId \<and> off_isActive t
              \<and> startDate < off_endDate t \<and> off_startDate t < endDate)
            \<longleftrightarrow> find ?P (sellerTimeOff s) \<noteq> None"
    unfolding find_None_iff using assms by (auto simp: overlapWhere_half_open)
  have counted: "filter ?Q (appointments s) \<noteq> []"
    if "\<exists>a \<in> set (appointments s). appt_sellerId a = sellerId
              \<and> (appt_status a = PENDING \<or> appt_status a = CONFIRMED)
              \<and> startDate < appt_scheduledTimeEnd a \<and> appt_scheduledTimeStart a < endDate
              \<and> startDate \<le> appt_scheduledDate a \<and> appt_scheduledDate a \<le> endDate"
    using that by (auto simp: filter_empty_conv)
  have none: "filter ?Q (appointments s) = []"
    if "\<not> (\<exists>a \<in> set (appointments s). appt_sellerId a = sellerId
              \<and> (appt_status a = PENDING \<or> appt_status a = CONFIRMED)
              \<and> (startDate < appt_scheduledTimeEnd a \<and> appt_scheduledTimeStart a < endDate
                 \<or> startDate \<le> appt_scheduledDate a \<and> appt_scheduledDate a \<le> endDate))"
    using that by (auto simp: filter_empty_conv)
  show ?thesis
    unfolding ov addTimeOff_unfold using counted none by simp
qed

text \<open>
  On the examples: Monday off is created in the empty store, refused once it is there,
  and refused while the Monday appointment is pending.
\<close>

theorem addTimeOff_outcomes_witness:
  "addTimeOff exDb 7 monday tuesday None
     = (Inr exMondayOff, exDb \<lparr> sellerTimeOff := [exMondayOff], nextId := 11 \<rparr>)
   \<and> addTimeOff exOnLeave 7 (monday + 3600000) (tuesday + 3600000) None = (Inl TimeOffOverlap, exOnLeave)
   \<and> addTimeOff exBooked 7 monday tuesday None = (Inl AppointmentsDuringTimeOff, exBooked)"
proof -
  have r: "monday < tuesday" "monday + 3600000 < tuesday + 3600000"
    by (simp_all add: monday_def tuesday_def)
  have e: "\<forall>t \<in> set (sellerTimeOff exDb). off_startDate t < off_endDate t"
          "\<forall>t \<in> set (sellerTimeOff exBooked). off_startDate t < off_endDate t"
    by (simp_all add: exDb_def exBooked_def)
  have l: "\<forall>t \<in> set (sellerTimeOff exOnLeave). off_startDate t < off_endDate t"
    by (simp add: exOnLeave_def exMondayOff_def monday_def tuesday_def)
  show ?thesis
    using addTimeOff_outcomes [OF r(1) e(1), of 7 None]
          addTimeOff_outcomes [OF r(2) l, of 7 None]
          addTimeOff_outcomes [OF r(1) e(2), of 7 None]
    by (simp add: exDb_def exBooked_def exOnLeave_def exMondayOff_def exNineRow_def
          monday_def tuesday_def)
qed

section \<open>Atomic writes\<close>

text \<open>Every call of \<open>createAppointment\<close> fails on a check, or reaches its transaction.\<close>

lemma createAppointment_outcome:
  "(\<exists>e. createAppointment f s buyerId d = (Inl e, s))
   \<or> (\<exists>service seller.
         findActiveService s (cd_serviceId d) = Some (service, seller)
       \<and> isApproved seller
       \<and> cd_scheduledTimeEnd d = cd_scheduledTimeStart d + durationMinutes service * 60000
       \<and> checkTimeSlotAvailability s (seller_id seller)
            (cd_scheduledTimeStart d) (cd_scheduledTimeEnd d))"
proof (cases "findActiveService s (cd_serviceId d)")
  case None
  then show ?thesis by (simp add: createAppointment_def)
next
  case (Some p)
  obtain service seller where p: "p = (service, seller)" by (cases p)
  show ?thesis
  proof (cases "isApproved seller")
    case False
    then show ?thesis using Some p by (simp add: createAppointment_def)
  next
    case approved: True
    show ?thesis
    proof (cases "cd_scheduledTimeEnd d
                    = cd_scheduledTimeStart d + durationMinutes service * 60000")
      case False
      then show ?thesis using Some p approved by (simp add: createAppointment_def Let_def)
    next
      case duration: True
      show ?thesis
      proof (cases "checkTimeSlotAvailability s (seller_id seller)
                      (cd_scheduledTimeStart d) (cd_scheduledTimeEnd d)")
        case False
        then have "\<not> checkTimeSlotAvailability s (seller_id seller) (cd_scheduledTimeStart d)
                     (cd_scheduledTimeStart d + durationMinutes service * 60000)"
          using duration by simp
        then have "createAppointment f s buyerId d = (Inl TimeSlotNotAvailable, s)"
          using Some p approved duration by (simp add: createAppointment_def Let_def)
        then show ?thesis by blast
      next
        case True
        with Some p approved duration show ?thesis by blast
      qed
    qed
  qed
qed

text \<open>The transaction of \<open>updateAppointmentStatus\<close>: both writes, or the store as it was.\<close>

lemma update_transaction:
  "transaction (\<lambda>tx.
      case appointment_update fe appointmentId newStatus tx of
        Inl e \<Rightarrow> Inl e
      | Inr tx1 \<Rightarrow>
          (case statusHistory_create fh appointmentId newStatus notes changedBy tx1 of
             Inl e \<Rightarrow> Inl e
           | Inr tx2 \<Rightarrow> Inr (tx2, ()))) s
   = (if fe \<or> find (\<lambda>a. appt_id a = appointmentId) (appointments s) = None \<or> fh
      then (Inl DatabaseError, s)
      else (Inr (),
            s\<lparr> appointments :=
                 map (\<lambda>a. if appt_id a = appointmentId then a\<lparr> appt_status := newStatus \<rparr> else a)
                     (appointments s),
               statusHistory := statusHistory s @
                 [\<lparr> hist_appointmentId = appointmentId, hist_status = newStatus,
                    hist_notes = notes, hist_changedBy = changedBy \<rparr>] \<rparr>))"
  by (simp add: transaction_def appointment_update_def statusHistory_create_def)

lemma updateAppointmentStatus_outcome:
  "(\<exists>e. updateAppointmentStatus f s appointmentId newStatus changedBy notes = (Inl e, s))
   \<or> (\<exists>appointment details.
         find (\<lambda>a. appt_id a = appointmentId) (appointments s) = Some appointment
       \<and> List.member (validTransitions (appt_status appointment)) newStatus
       \<and> updateAppointmentStatus f s appointmentId newStatus changedBy notes
          = (Inr details,
             s\<lparr> appointments :=
                  map (\<lambda>a. if appt_id a = appointmentId then a\<lparr> appt_status := newStatus \<rparr> else a)
                      (appointments s),
                statusHistory := statusHistory s @
                  [\<lparr> hist_appointmentId = appointmentId, hist_status = newStatus,
                     hist_notes = notes, hist_changedBy = changedBy \<rparr>] \<rparr>))"
proof (cases "find (\<lambda>a. appt_id a = appointmentId) (appointments s)")
  case None
  then show ?thesis by (simp add: updateAppointmentStatus_def)
next
  case (Some appointment)
  show ?thesis
  proof (cases "List.member (validTransitions (appt_status appointment)) newStatus")
    case False
    then show ?thesis using Some by (simp add: updateAppointmentStatus_def)
  next
    case valid: True
    show ?thesis
    proof (cases "failEntityWrite f \<or> failHistoryWrite f")
      case True
      then have "updateAppointmentStatus f s appointmentId newStatus changedBy notes
                   = (Inl DatabaseError, s)"
        using Some valid unfolding updateAppointmentStatus_def update_transaction by auto
      then show ?thesis by blast
    next
      case False
      let ?s' = "s\<lparr> appointments :=
                  map (\<lambda>a. if appt_id a = appointmentId then a\<lparr> appt_status := newStatus \<rparr> else a)
                      (appointments s),
                statusHistory := statusHistory s @
                  [\<lparr> hist_appointmentId = appointmentId, hist_status = newStatus,
                     hist_notes = notes, hist_changedBy = changedBy \<rparr>] \<rparr>"
      have "find (\<lambda>a. appt_id a = appointmentId) (appointments ?s') \<noteq> None"
        using Some by (simp add: find_status_update)
      then obtain details where "getAppointmentById ?s' appointmentId = Inr details"
        using getAppointmentById_found by blast
      then have "updateAppointmentStatus f s appointmentId newStatus changedBy notes
                   = (Inr details, ?s')"
        using Some valid False unfolding updateAppointmentStatus_def update_transaction by simp
      with Some valid show ?thesis by blast
    qed
  qed
qed

text \<open>
  C8. \<open>createAppointment\<close> leaves the store as it was and returns an error, or adds
  exactly one appointment row, in status PENDING, together with exactly one
  status-history row for it, PENDING with the note "Appointment created".
  \<open>updateAppointmentStatus\<close> leaves the store as it was and returns an error, or sets
  the status and appends exactly one status-history row with the new status. When the
  store refuses either write of an operation, neither write takes effect.
\<close>

theorem writes_are_atomic:
  "((\<exists>e. createAppointment f s buyerId d = (Inl e, s))
    \<or> (\<exists>details a. createAppointment f s buyerId d =
           (Inr details,
            s\<lparr> appointments := appointments s @ [a],
               nextId := Suc (nextId s),
               statusHistory := statusHistory s @
                 [\<lparr> hist_appointmentId = appt_id a, hist_status = PENDING,
                    hist_notes = Some ''Appointment created'', hist_changedBy = buyerId \<rparr>] \<rparr>)
          \<and> appt_status a = PENDING))
   \<and> ((\<exists>e. updateAppointmentStatus f s appointmentId newStatus changedBy notes = (Inl e, s))
    \<or> (\<exists>details. updateAppointmentStatus f s appointmentId newStatus changedBy notes =
           (Inr details,
            s\<lparr> appointments :=
                 map (\<lambda>a. if appt_id a = appointmentId then a\<lparr> appt_status := newStatus \<rparr> else a)
                     (appointments s),
               statusHistory := statusHistory s @
                 [\<lparr> hist_appointmentId = appointmentId, hist_status = newStatus,
                    hist_notes = notes, hist_changedBy = changedBy \<rparr>] \<rparr>)))
   \<and> (failEntityWrite f \<or> failHistoryWrite f \<longrightarrow>
         snd (createAppointment f s buyerId d) = s
       \<and> snd (updateAppointmentStatus f s appointmentId newStatus changedBy notes) = s)"
proof -
  have c: "(\<exists>e. createAppointment f s buyerId d = (Inl e, s))
    \<or> (\<not> (failEntityWrite f \<or> failHistoryWrite f)
       \<and> (\<exists>details a. createAppointment f s buyerId d =
           (Inr details,
            s\<lparr> appointments := appointments s @ [a],
               nextId := Suc (nextId s),
               statusHistory := statusHistory s @
                 [\<lparr> hist_appointmentId = appt_id a, hist_status = PENDING,
                    hist_notes = Some ''Appointment created'', hist_changedBy = buyerId \<rparr>] \<rparr>)
          \<and> appt_status a = PENDING))"
  proof (rule disjE [OF createAppointment_outcome [of f s buyerId d]])
    assume "\<exists>e. createAppointment f s buyerId d = (Inl e, s)"
    then show ?thesis by blast
  next
    assume "\<exists>service seller.
         findActiveService s (cd_serviceId d) = Some (service, seller)
       \<and> isApproved seller
       \<and> cd_scheduledTimeEnd d = cd_scheduledTimeStart d + durationMinutes service * 60000
       \<and> checkTimeSlotAvailability s (seller_id seller)
            (cd_scheduledTimeStart d) (cd_scheduledTimeEnd d)"
    then obtain service seller where checks:
        "findActiveService s (cd_serviceId d) = Some (service, seller)"
        "isApproved seller"
        "cd_scheduledTimeEnd d = cd_scheduledTimeStart d + durationMinutes service * 60000"
        "checkTimeSlotAvailability s (seller_id seller)
            (cd_scheduledTimeStart d) (cd_scheduledTimeEnd d)"
      by blast
    let ?a = "newAppointmentRow s buyerId (seller_id seller) d (price service)"
    let ?s' = "s\<lparr> appointments := appointments s @ [?a],
                 nextId := Suc (nextId s),
                 statusHistory := statusHistory s @
                   [\<lparr> hist_appointmentId = nextId s, hist_status = PENDING,
                      hist_notes = Some ''Appointment created'', hist_changedBy = buyerId \<rparr>] \<rparr>"
    show ?thesis
    proof (cases "failEntityWrite f \<or> failHistoryWrite f")
      case True
      then have "createAppointment f s buyerId d = (Inl DatabaseError, s)"
        by (simp add: createAppointment_persist [OF checks])
      then show ?thesis by blast
    next
      case False
      have "find (\<lambda>a. appt_id a = nextId s) (appointments ?s') \<noteq> None"
        by (simp add: find_append_last)
      then obtain details where "getAppointmentById ?s' (nextId s) = Inr details"
        using getAppointmentById_found by blast
      then have "createAppointment f s buyerId d = (Inr details, ?s')"
        using False by (simp add: createAppointment_persist [OF checks])
      moreover have "appt_id ?a = nextId s" "appt_status ?a = PENDING"
        by simp_all
      ultimately have "\<exists>details a. createAppointment f s buyerId d =
           (Inr details,
            s\<lparr> appointments := appointments s @ [a],
               nextId := Suc (nextId s),
               statusHistory := statusHistory s @
                 [\<lparr> hist_appointmentId = appt_id a, hist_status = PENDING,
                    hist_notes = Some ''Appointment created'', hist_changedBy = buyerId \<rparr>] \<rparr>)
          \<and> appt_status a = PENDING"
        by (intro exI [of _ details] exI [of _ ?a]) simp
      with False show ?thesis by blast
    qed
  qed
  have u: "(\<exists>e. updateAppointmentStatus f s appointmentId newStatus changedBy notes = (Inl e, s))
    \<or> (\<exists>details. updateAppointmentStatus f s appointmentId newStatus changedBy notes =
           (Inr details,
            s\<lparr> appointments :=
                 map (\<lambda>a. if appt_id a = appointmentId then a\<lparr> appt_status := newStatus \<rparr> else a)
                     (appointments s),
               statusHistory := statusHistory s @
                 [\<lparr> hist_appointmentId = appointmentId, hist_status = newStatus,
                    hist_notes = notes, hist_changedBy = changedBy \<rparr>] \<rparr>))"
    using updateAppointmentStatus_outcome [of f s appointmentId newStatus changedBy "notes"]
    by blast
  have uf: "snd (updateAppointmentStatus f s appointmentId newStatus changedBy notes) = s"
    if "failEntityWrite f \<or> failHistoryWrite f"
  proof (cases "find (\<lambda>a. appt_id a = appointmentId) (appointments s)")
    case None
    then show ?thesis by (simp add: updateAppointmentStatus_def)
  next
    case (Some appointment)
    then show ?thesis using that
      unfolding updateAppointmentStatus_def update_transaction by auto
  qed
  have cf: "snd (createAppointment f s buyerId d) = s"
    if "failEntityWrite f \<or> failHistoryWrite f"
    using c that by auto
  from c u uf cf show ?thesis by blast
qed

text \<open>
  On the example: the booking of Monday 09:00 gives the booked store, with both rows;
  with the history write refused, the store is the one before.
\<close>

theorem writes_are_atomic_witness:
  "fst (createAppointment noFaults exDb 5 exNine) \<noteq> Inl DatabaseError
   \<and> snd (createAppointment noFaults exDb 5 exNine) = exBooked
   \<and> createAppointment \<lparr> failEntityWrite = False, failHistoryWrite = True \<rparr> exDb 5 exNine
       = (Inl DatabaseError, exDb)
   \<and> snd (updateAppointmentStatus \<lparr> failEntityWrite = False, failHistoryWrite = True \<rparr>
            exBooked 10 CONFIRMED 7 None) = exBooked"
proof -
  have a: "createAppointment noFaults exDb 5 exNine
             = (getAppointmentById exBooked 10, exBooked)"
    by code_simp
  have b: "createAppointment \<lparr> failEntityWrite = False, failHistoryWrite = True \<rparr> exDb 5 exNine
             = (Inl DatabaseError, exDb)"
    by code_simp
  have c: "getAppointmentById exBooked 10 \<noteq> Inl DatabaseError"
    by code_simp
  have f: "failEntityWrite \<lparr> failEntityWrite = False, failHistoryWrite = True \<rparr>
           \<or> failHistoryWrite \<lparr> failEntityWrite = False, failHistoryWrite = True \<rparr>"
    by simp
  from f writes_are_atomic [of "\<lparr> failEntityWrite = False, failHistoryWrite = True \<rparr>"
         exBooked 7 exNine 10 CONFIRMED 7 None]
  have d: "snd (updateAppointmentStatus \<lparr> failEntityWrite = False, failHistoryWrite = True \<rparr>
            exBooked 10 CONFIRMED 7 None) = exBooked"
    by blast
  from a b c d show ?thesis by simp
qed

section \<open>No double booking\<close>

lemma find_unique_key:
  "distinct (map appt_id xs) \<Longrightarrow> find (\<lambda>a. appt_id a = i) xs = Some x
     \<Longrightarrow> a \<in> set xs \<Longrightarrow> appt_id a = i \<Longrightarrow> a = x"
  by (induction xs) (auto split: if_splits)

lemma nonTerminal_source:
  "List.member (validTransitions cur) new \<Longrightarrow> nonTerminal new \<Longrightarrow> nonTerminal cur"
  by (cases cur; cases new) (simp_all add: nonTerminal_def)

lemma nonTerminal_set:
  "nonTerminal st \<longleftrightarrow> st \<in> {PENDING, CONFIRMED, IN_PROGRESS}"
  by (auto simp: nonTerminal_def)

text \<open>A new row that passed the conflict check keeps the rule.\<close>

lemma noDoubleBooking_append:
  assumes inv: "noDoubleBooking s"
      and chk: "checkTimeSlotAvailability s (appt_sellerId n)
                  (appt_scheduledTimeStart n) (appt_scheduledTimeEnd n)"
  shows "noDoubleBooking (s\<lparr> appointments := appointments s @ [n], nextId := k,
                             statusHistory := h \<rparr>)"
proof -
  have free: "\<not> (nonTerminal (appt_status a) \<and> windowsOverlap a n)"
    if "a \<in> set (appointments s)" "appt_sellerId a = appt_sellerId n" for a
  proof
    assume c: "nonTerminal (appt_status a) \<and> windowsOverlap a n"
    then have "overlapWhere (appt_scheduledTimeStart a) (appt_scheduledTimeEnd a)
                 (appt_scheduledTimeStart n) (appt_scheduledTimeEnd n)"
      by (simp add: windowsOverlap_def overlapWhere_complete)
    with chk that c show False
      unfolding checkTimeSlotAvailability_iff nonTerminal_set by blast
  qed
  have swap: "windowsOverlap a b \<longleftrightarrow> windowsOverlap b a" for a b
    by (auto simp: windowsOverlap_def)
  show ?thesis
    unfolding noDoubleBooking_def
  proof (intro ballI impI)
    fix a b
    assume a: "a \<in> set (appointments (s\<lparr> appointments := appointments s @ [n], nextId := k,
                             statusHistory := h \<rparr>))"
       and b: "b \<in> set (appointments (s\<lparr> appointments := appointments s @ [n], nextId := k,
                             statusHistory := h \<rparr>))"
       and c: "appt_id a \<noteq> appt_id b \<and> appt_sellerId a = appt_sellerId b \<and> windowsOverlap a b"
    from a have a': "a \<in> set (appointments s) \<or> a = n" by auto
    from b have b': "b \<in> set (appointments s) \<or> b = n" by auto
    show "\<not> (nonTerminal (appt_status a) \<and> nonTerminal (appt_status b))"
    proof (cases "a = n")
      case True
      with c b' have "b \<in> set (appointments s)" by auto
      from free [OF this] c True swap [where a = b and b = n] show ?thesis by auto
    next
      case False
      with a' have ain: "a \<in> set (appointments s)" by simp
      show ?thesis
      proof (cases "b = n")
        case True
        from free [OF ain] c True show ?thesis by auto
      next
        case False
        with b' have "b \<in> set (appointments s)" by simp
        with inv ain c show ?thesis unfolding noDoubleBooking_def by blast
      qed
    qed
  qed
qed

lemma keysFresh_append:
  assumes "keysFresh s" and "appt_id n = nextId s"
  shows "keysFresh (s\<lparr> appointments := appointments s @ [n], nextId := Suc (nextId s),
                       statusHistory := h \<rparr>)"
  using assms by (auto simp: keysFresh_def)

text \<open>A status change along the table keeps the rule.\<close>

lemma noDoubleBooking_update:
  assumes inv: "noDoubleBooking s"
      and keys: "keysFresh s"
      and found: "find (\<lambda>a. appt_id a = i) (appointments s) = Some x"
      and valid: "List.member (validTransitions (appt_status x)) new"
  shows "noDoubleBooking (s\<lparr> appointments :=
            map (\<lambda>a. if appt_id a = i then a\<lparr> appt_status := new \<rparr> else a) (appointments s),
            statusHistory := h \<rparr>)"
proof -
  let ?u = "\<lambda>a. if appt_id a = i then a\<lparr> appt_status := new \<rparr> else a"
  have before: "nonTerminal (appt_status a)"
    if "a \<in> set (appointments s)" "nonTerminal (appt_status (?u a))" for a
  proof (cases "appt_id a = i")
    case True
    with keys found that(1) have "a = x"
      unfolding keysFresh_def by (blast intro: find_unique_key)
    moreover from True that(2) have "nonTerminal new" by simp
    ultimately show ?thesis using nonTerminal_source [OF valid] by simp
  next
    case False
    with that(2) show ?thesis by simp
  qed
  have same: "appt_id (?u a) = appt_id a" "appt_sellerId (?u a) = appt_sellerId a"
     "windowsOverlap (?u a) (?u b) = windowsOverlap a b" for a b
    by (simp_all add: windowsOverlap_def)
  show ?thesis
    unfolding noDoubleBooking_def
  proof (intro ballI impI)
    fix a b
    assume "a \<in> set (appointments (s\<lparr> appointments := map ?u (appointments s),
                                         statusHistory := h \<rparr>))"
       and "b \<in> set (appointments (s\<lparr> appointments := map ?u (appointments s),
                                         statusHistory := h \<rparr>))"
       and c: "appt_id a \<noteq> appt_id b \<and> appt_sellerId a = appt_sellerId b \<and> windowsOverlap a b"
    then obtain a0 b0 where a0: "a0 \<in> set (appointments s)" "a = ?u a0"
                        and b0: "b0 \<in> set (appointments s)" "b = ?u b0"
      by auto
    from c
    have c0: "appt_id a0 \<noteq> appt_id b0 \<and> appt_sellerId a0 = appt_sellerId b0 \<and> windowsOverlap a0 b0"
      unfolding a0(2) b0(2) same .
    show "\<not> (nonTerminal (appt_status a) \<and> nonTerminal (appt_status b))"
    proof
      assume "nonTerminal (appt_status a) \<and> nonTerminal (appt_status b)"
      then have "nonTerminal (appt_status a0)" "nonTerminal (appt_status b0)"
        using before [OF a0(1)] before [OF b0(1)] a0(2) b0(2) by blast+
      with inv a0(1) b0(1) c0 show False unfolding noDoubleBooking_def by blast
    qed
  qed
qed

lemma keysFresh_update:
  assumes "keysFresh s"
  shows "keysFresh (s\<lparr> appointments :=
            map (\<lambda>a. if appt_id a = i then a\<lparr> appt_status := new \<rparr> else a) (appointments s),
            statusHistory := h \<rparr>)"
proof -
  have same: "appt_id \<circ> (\<lambda>a. if appt_id a = i then a\<lparr> appt_status := new \<rparr> else a) = appt_id"
    by (rule ext) simp
  show ?thesis using assms by (auto simp: keysFresh_def same)
qed

lemma createAppointment_preserves:
  assumes "noDoubleBooking s \<and> keysFresh s"
      and "createAppointment f s buyerId d = (r, s')"
  shows "noDoubleBooking s' \<and> keysFresh s'"
proof (rule disjE [OF createAppointment_outcome [of f s buyerId d]])
  assume "\<exists>e. createAppointment f s buyerId d = (Inl e, s)"
  with assms show ?thesis by auto
next
  assume "\<exists>service seller.
         findActiveService s (cd_serviceId d) = Some (service, seller)
       \<and> isApproved seller
       \<and> cd_scheduledTimeEnd d = cd_scheduledTimeStart d + durationMinutes service * 60000
       \<and> checkTimeSlotAvailability s (seller_id seller)
            (cd_scheduledTimeStart d) (cd_scheduledTimeEnd d)"
  then obtain service seller where checks:
        "findActiveService s (cd_serviceId d) = Some (service, seller)"
        "isApproved seller"
        "cd_scheduledTimeEnd d = cd_scheduledTimeStart d + durationMinutes service * 60000"
        "checkTimeSlotAvailability s (seller_id seller)
            (cd_scheduledTimeStart d) (cd_scheduledTimeEnd d)"
    by blast
  let ?n = "newAppointmentRow s buyerId (seller_id seller) d (price service)"
  let ?h = "statusHistory s @
                   [\<lparr> hist_appointmentId = nextId s, hist_status = PENDING,
                      hist_notes = Some ''Appointment created'', hist_changedBy = buyerId \<rparr>]"
  let ?s' = "s\<lparr> appointments := appointments s @ [?n], nextId := Suc (nextId s),
                 statusHistory := ?h \<rparr>"
  have "s' = s \<or> s' = ?s'"
    using assms(2) createAppointment_persist [OF checks, where f = f and buyerId = buyerId]
    by (auto split: if_splits)
  moreover have "noDoubleBooking ?s'"
    using assms(1) checks(4) by (intro noDoubleBooking_append) simp_all
  moreover have "keysFresh ?s'"
    using assms(1) by (intro keysFresh_append) simp_all
  ultimately show ?thesis using assms(1) by auto
qed

lemma updateAppointmentStatus_preserves:
  assumes "noDoubleBooking s \<and> keysFresh s"
      and "updateAppointmentStatus f s i new changedBy why = (r, s')"
  shows "noDoubleBooking s' \<and> keysFresh s'"
proof (rule disjE [OF updateAppointmentStatus_outcome [of f s i new changedBy why]])
  assume "\<exists>e. updateAppointmentStatus f s i new changedBy why = (Inl e, s)"
  with assms show ?thesis by auto
next
  let ?h = "statusHistory s @
                  [\<lparr> hist_appointmentId = i, hist_status = new,
                     hist_notes = why, hist_changedBy = changedBy \<rparr>]"
  let ?s' = "s\<lparr> appointments :=
                  map (\<lambda>a. if appt_id a = i then a\<lparr> appt_status := new \<rparr> else a) (appointments s),
                statusHistory := ?h \<rparr>"
  assume "\<exists>appointment details.
         find (\<lambda>a. appt_id a = i) (appointments s) = Some appointment
       \<and> List.member (validTransitions (appt_status appointment)) new
       \<and> updateAppointmentStatus f s i new changedBy why = (Inr details, ?s')"
  then obtain x details where x:
      "find (\<lambda>a. appt_id a = i) (appointments s) = Some x"
      "List.member (validTransitions (appt_status x)) new"
      "updateAppointmentStatus f s i new changedBy why = (Inr details, ?s')"
    by blast
  from x(3) assms(2) have "s' = ?s'" by simp
  moreover have "noDoubleBooking ?s'"
    using assms(1) x(1,2) by (intro noDoubleBooking_update) simp_all
  moreover have "keysFresh ?s'"
    using assms(1) by (intro keysFresh_update) simp
  ultimately show ?thesis by simp
qed

text \<open>
  Run with no other query in between, the steps of a call in flight are the operation
  itself: five queries for \<open>createAppointment\<close>, three for
  \<open>updateAppointmentStatus\<close>.
\<close>

lemma createAppointment_alone:
  "alone 5 f s (CreateAppointment buyerId d)
     = (Finished (fst (createAppointment f s buyerId d)), snd (createAppointment f s buyerId d))"
proof (cases "findActiveService s (cd_serviceId d)")
  case None
  then show ?thesis
    by (simp add: eval_nat_numeral createAppointment_def)
next
  case (Some p)
  obtain service seller where p: "p = (service, seller)" by (cases p)
  show ?thesis
    using Some p
    unfolding createAppointment_def Let_def create_transaction
    by (simp add: eval_nat_numeral Let_def create_transaction)
qed

lemma updateAppointmentStatus_alone:
  "alone 3 f s (UpdateAppointmentStatus i new changedBy why)
     = (Finished (fst (updateAppointmentStatus f s i new changedBy why)),
        snd (updateAppointmentStatus f s i new changedBy why))"
proof (cases "find (\<lambda>a. appt_id a = i) (appointments s)")
  case None
  then show ?thesis
    by (simp add: eval_nat_numeral updateAppointmentStatus_def)
next
  case (Some x)
  then show ?thesis
    unfolding updateAppointmentStatus_def update_transaction
    by (simp add: eval_nat_numeral update_transaction)
qed

text \<open>So a call that runs alone keeps the rule and the keys distinct.\<close>

lemma alone_preserves:
  assumes "noDoubleBooking s \<and> keysFresh s"
  shows "noDoubleBooking (snd (alone 5 f s (CreateAppointment buyerId d)))
       \<and> keysFresh (snd (alone 5 f s (CreateAppointment buyerId d)))
       \<and> noDoubleBooking (snd (alone 3 f s (UpdateAppointmentStatus i new changedBy why)))
       \<and> keysFresh (snd (alone 3 f s (UpdateAppointmentStatus i new changedBy why)))"
  using createAppointment_preserves [OF assms, of f buyerId d]
        updateAppointmentStatus_preserves [OF assms, of f i new changedBy why]
  by (simp add: createAppointment_alone updateAppointmentStatus_alone prod_eq_iff)

text \<open>
  On the booked example, a second request for the same window that arrives after the
  first has returned is refused.
\<close>

lemma second_booking_refused:
  "createAppointment noFaults exBooked 6 exNine = (Inl TimeSlotNotAvailable, exBooked)"
  by code_simp

text \<open>The store with both bookings breaks the rule.\<close>

lemma exDoubleBooked_breaks_rule:
  "\<not> noDoubleBooking exDoubleBooked"
  by (simp add: noDoubleBooking_def exDoubleBooked_def exNineRow_def exNineAgainRow_def
        windowsOverlap_def nonTerminal_def)

text \<open>
  C1, at two requests in flight together. Buyers 5 and 6 both ask for Monday 09:00 to
  10:00 with the example seller, whose calendar is empty. The store answers the queries
  of the two calls in turn: both conflict counts are taken before either transaction
  commits, both find nothing, and both transactions insert their row. Both calls return
  their appointment, and the store reached holds two distinct appointments of seller 7
  with the same window, both PENDING.
\<close>

theorem interleaved_double_booking:
  "reachable exDoubleBooked
     [Finished (Inr \<lparr> details_appointment = exNineRow, details_statusHistory = [exCreatedRow] \<rparr>),
      Finished (Inr \<lparr> details_appointment = exNineAgainRow,
                       details_statusHistory = [exCreatedAgainRow] \<rparr>)]
   \<and> appointments exDoubleBooked = [exNineRow, exNineAgainRow]
   \<and> appt_id exNineRow \<noteq> appt_id exNineAgainRow
   \<and> appt_sellerId exNineRow = appt_sellerId exNineAgainRow
   \<and> windowsOverlap exNineRow exNineAgainRow
   \<and> nonTerminal (appt_status exNineRow)
   \<and> nonTerminal (appt_status exNineAgainRow)"
proof -
  let ?five = "\<lparr> details_appointment = exNineRow, details_statusHistory = [exCreatedRow] \<rparr>"
  let ?six = "\<lparr> details_appointment = exNineAgainRow,
                 details_statusHistory = [exCreatedAgainRow] \<rparr>"
  have lookup: "resume noFaults exDb (CreateAppointment b exNine)
                  = (CheckTimeSlot b exNine exService exSeller, exDb)" for b
    by (simp add: exDb_service exNine_def exService_def exSeller_def)
  have count: "resume noFaults exDb (CheckTimeSlot b exNine exService exSeller)
                  = (GetAvailabilityForDay b exNine exService exSeller, exDb)" for b
    by (simp add: checkTimeSlotAvailability_def exDb_def)
  have hours: "resume noFaults s (GetAvailabilityForDay b exNine exService exSeller)
                  = (CreateTransaction b exNine exService exSeller, s)" for b s
    by (simp add: Let_def)
  have insert5: "resume noFaults exDb (CreateTransaction 5 exNine exService exSeller)
                  = (GetAppointmentById 10, exBooked)"
    by (simp add: create_transaction noFaults_def newAppointmentRow_def exDb_def exBooked_def
          exNineRow_def exCreatedRow_def exNine_def exService_def exSeller_def)
  have insert6: "resume noFaults exBooked (CreateTransaction 6 exNine exService exSeller)
                  = (GetAppointmentById 11, exDoubleBooked)"
    by (simp add: create_transaction noFaults_def newAppointmentRow_def exDb_def exBooked_def
          exDoubleBooked_def exNineRow_def exNineAgainRow_def exCreatedRow_def
          exCreatedAgainRow_def exNine_def exService_def exSeller_def)
  have read5: "resume noFaults exDoubleBooked (GetAppointmentById 10) = (Finished (Inr ?five), exDoubleBooked)"
    by (simp add: getAppointmentById_def exDoubleBooked_def exNineRow_def exNineAgainRow_def
          exCreatedRow_def exCreatedAgainRow_def)
  have read6: "resume noFaults exDoubleBooked (GetAppointmentById 11) = (Finished (Inr ?six), exDoubleBooked)"
    by (simp add: getAppointmentById_def exDoubleBooked_def exNineRow_def exNineAgainRow_def
          exCreatedRow_def exCreatedAgainRow_def)
  have "reachable exDb []"
    by (rule reachable.start) (simp add: exDb_def)
  from reachable.create [OF this, of 5 exNine]
  have "reachable exDb [CreateAppointment 5 exNine]"
    by simp
  from reachable.create [OF this, of 6 exNine]
  have "reachable exDb [CreateAppointment 5 exNine, CreateAppointment 6 exNine]"
    by simp
  from reachable.answer [OF this, where i = 0 and f = noFaults] lookup [of 5]
  have "reachable exDb [CheckTimeSlot 5 exNine exService exSeller, CreateAppointment 6 exNine]"
    by simp
  from reachable.answer [OF this, where i = "Suc 0" and f = noFaults] lookup [of 6]
  have "reachable exDb [CheckTimeSlot 5 exNine exService exSeller,
                        CheckTimeSlot 6 exNine exService exSeller]"
    by simp
  from reachable.answer [OF this, where i = 0 and f = noFaults] count [of 5]
  have "reachable exDb [GetAvailabilityForDay 5 exNine exService exSeller,
                        CheckTimeSlot 6 exNine exService exSeller]"
    by simp
  from reachable.answer [OF this, where i = "Suc 0" and f = noFaults] count [of 6]
  have "reachable exDb [GetAvailabilityForDay 5 exNine exService exSeller,
                        GetAvailabilityForDay 6 exNine exService exSeller]"
    by simp
  from reachable.answer [OF this, where i = 0 and f = noFaults] hours [of exDb 5]
  have "reachable exDb [CreateTransaction 5 exNine exService exSeller,
                        GetAvailabilityForDay 6 exNine exService exSeller]"
    by simp
  from reachable.answer [OF this, where i = "Suc 0" and f = noFaults] hours [of exDb 6]
  have "reachable exDb [CreateTransaction 5 exNine exService exSeller,
                        CreateTransaction 6 exNine exService exSeller]"
    by simp
  from reachable.answer [OF this, where i = 0 and f = noFaults] insert5
  have "reachable exBooked [GetAppointmentById 10, CreateTransaction 6 exNine exService exSeller]"
    by simp
  from reachable.answer [OF this, where i = "Suc 0" and f = noFaults] insert6
  have "reachable exDoubleBooked [GetAppointmentById 10, GetAppointmentById 11]"
    by simp
  from reachable.answer [OF this, where i = 0 and f = noFaults] read5
  have "reachable exDoubleBooked [Finished (Inr ?five), GetAppointmentById 11]"
    by simp
  from reachable.answer [OF this, where i = "Suc 0" and f = noFaults] read6
  have run: "reachable exDoubleBooked [Finished (Inr ?five), Finished (Inr ?six)]"
    by simp
  have rows: "appointments exDoubleBooked = [exNineRow, exNineAgainRow]"
    by (simp add: exDoubleBooked_def)
  have clash: "appt_id exNineRow \<noteq> appt_id exNineAgainRow
     \<and> appt_sellerId exNineRow = appt_sellerId exNineAgainRow
     \<and> windowsOverlap exNineRow exNineAgainRow
     \<and> nonTerminal (appt_status exNineRow)
     \<and> nonTerminal (appt_status exNineAgainRow)"
    by (simp add: exNineRow_def exNineAgainRow_def windowsOverlap_def nonTerminal_def)
  from run rows clash show ?thesis by blast
qed

text \<open>
  The status read of \<open>updateAppointmentStatus\<close> is outside its transaction in the
  same way. On the booked example a cancellation by the buyer and a confirmation by the
  seller are in flight together: both read PENDING and pass the table test, the
  cancellation commits, and the confirmation then moves the cancelled appointment to
  CONFIRMED.
\<close>

lemma interleaved_updates_revive:
  "resume noFaults exBooked (UpdateAppointmentStatus 10 CANCELLED 5 None)
     = (UpdateTransaction 10 CANCELLED 5 None, exBooked)
   \<and> resume noFaults exBooked (UpdateAppointmentStatus 10 CONFIRMED 7 None)
     = (UpdateTransaction 10 CONFIRMED 7 None, exBooked)
   \<and> map appt_status (appointments
        (snd (resume noFaults exBooked (UpdateTransaction 10 CANCELLED 5 None)))) = [CANCELLED]
   \<and> map appt_status (appointments
        (snd (resume noFaults
               (snd (resume noFaults exBooked (UpdateTransaction 10 CANCELLED 5 None)))
               (UpdateTransaction 10 CONFIRMED 7 None)))) = [CONFIRMED]"
  by (simp add: update_transaction noFaults_def exBooked_def exNineRow_def)

section \<open>The next available slot\<close>

text \<open>
  What the inner loop returns: a window of the service's duration inside the day's
  window, that \<open>isSellerAvailable\<close> accepts, starting a whole number of 30-minute
  strides after the first probe, every earlier probe having been rejected.
\<close>

lemma probeSlots_Some:
  "probeSlots s service sellerId currentDate dayEnd slotStart = Some slot \<Longrightarrow>
     slot_date slot = currentDate
   \<and> slot_endTime slot = slot_startTime slot + durationMinutes service * 60000
   \<and> slot_endTime slot \<le> dayEnd
   \<and> slot_startTime slot < dayEnd
   \<and> available (isSellerAvailable s sellerId currentDate (slot_startTime slot) (slot_endTime slot))
   \<and> (\<exists>k. slot_startTime slot = slotStart + int k * 1800000
         \<and> (\<forall>j<k. \<not> (slotStart + int j * 1800000 + durationMinutes service * 60000 \<le> dayEnd
                 \<and> available (isSellerAvailable s sellerId currentDate
                       (slotStart + int j * 1800000)
                       (slotStart + int j * 1800000 + durationMinutes service * 60000)))))"
proof (induction s service sellerId currentDate dayEnd slotStart rule: probeSlots.induct)
  case (1 s service sellerId currentDate dayEnd slotStart)
  let ?fits = "\<lambda>t. t + durationMinutes service * 60000 \<le> dayEnd
       \<and> available (isSellerAvailable s sellerId currentDate t
             (t + durationMinutes service * 60000))"
  note unfold = probeSlots.simps [of s service sellerId currentDate dayEnd slotStart]
  from "1.prems" have inside: "slotStart < dayEnd"
    by (simp add: unfold split: if_splits)
  show ?case
  proof (cases "?fits slotStart")
    case True
    with "1.prems" inside
    have slot: "slot = \<lparr> slot_date = currentDate, slot_startTime = slotStart,
                   slot_endTime = slotStart + durationMinutes service * 60000 \<rparr>"
      by (simp add: unfold Let_def)
    have "slot_startTime slot = slotStart + int 0 * 1800000" using slot by simp
    moreover have "\<forall>j<(0::nat). \<not> ?fits (slotStart + int j * 1800000)" by simp
    ultimately have "\<exists>k. slot_startTime slot = slotStart + int k * 1800000
         \<and> (\<forall>j<k. \<not> ?fits (slotStart + int j * 1800000))"
      by blast
    with True slot inside show ?thesis by simp
  next
    case False
    with "1.prems" inside
    have rec: "probeSlots s service sellerId currentDate dayEnd (slotStart + 30 * 60000) = Some slot"
      by (simp add: unfold Let_def split: if_splits)
    from False have no: "\<not> (slotStart + durationMinutes service * 60000 \<le> dayEnd
          \<and> available (isSellerAvailable s sellerId currentDate slotStart
                (slotStart + durationMinutes service * 60000)))"
      by simp
    note ih = "1.IH" [OF inside refl no rec]
    then obtain k where k: "slot_startTime slot = slotStart + 30 * 60000 + int k * 1800000"
        and before: "\<forall>j<k. \<not> ?fits (slotStart + 30 * 60000 + int j * 1800000)"
      by blast
    have "slot_startTime slot = slotStart + int (Suc k) * 1800000"
      using k by simp
    moreover have "\<not> ?fits (slotStart + int j * 1800000)" if "j < Suc k" for j
    proof (cases j)
      case 0
      with False show ?thesis by simp
    next
      case (Suc j')
      with that have "j' < k" by simp
      with before have nofit: "\<not> ?fits (slotStart + 30 * 60000 + int j' * 1800000)" by blast
      have eq: "slotStart + 30 * 60000 + int j' * 1800000 = slotStart + int j * 1800000"
        using Suc by simp
      from nofit [unfolded eq] show ?thesis .
    qed
    ultimately have "\<exists>k. slot_startTime slot = slotStart + int k * 1800000
         \<and> (\<forall>j<k. \<not> ?fits (slotStart + int j * 1800000))"
      by blast
    with ih show ?thesis by blast
  qed
qed

lemma ceil30_ge: "m \<le> ceil30 m"
  unfolding ceil30_def by presburger

lemma setMinutes_ceil30_ge: "now \<le> setMinutes now (ceil30 (getMinutes now))"
  using ceil30_ge [of "getMinutes now"] by (simp add: setMinutes_def minuteMs_def)

text \<open>
  What a day of the outer loop returns: the window ends by the end of the day's
  recurring window, and on the day of \<open>now\<close> it does not start before \<open>now\<close>.
\<close>

lemma probeDay_Some:
  assumes "probeDay s now service sellerId currentDate = Some slot"
  shows "\<exists>availability endHour endMinute.
           find (\<lambda>r. avail_sellerId r = sellerId \<and> avail_dayOfWeek r = getDay currentDate)
             (sellerAvailability s) = Some availability
         \<and> avail_isAvailable availability
         \<and> hourMinute (avail_endTime availability) = Some (endHour, endMinute)
         \<and> slot_date slot = currentDate
         \<and> slot_endTime slot = slot_startTime slot + durationMinutes service * 60000
         \<and> slot_endTime slot \<le> setHours currentDate endHour endMinute
         \<and> (sameDateString currentDate now \<longrightarrow> now \<le> slot_startTime slot)"
proof -
  from assms obtain availability where row:
      "find (\<lambda>r. avail_sellerId r = sellerId \<and> avail_dayOfWeek r = getDay currentDate)
             (sellerAvailability s) = Some availability"
    by (auto simp: probeDay_def Let_def split: option.splits)
  from assms row have open_day: "avail_isAvailable availability"
    by (auto simp: probeDay_def Let_def split: if_splits)
  from assms row open_day obtain startHour startMinute endHour endMinute where
      hm: "hourMinute (avail_startTime availability) = Some (startHour, startMinute)"
          "hourMinute (avail_endTime availability) = Some (endHour, endMinute)"
    by (auto simp: probeDay_def Let_def split: option.splits)
  let ?slotStart = "setHours currentDate startHour startMinute"
  let ?dayEnd = "setHours currentDate endHour endMinute"
  let ?first = "if sameDateString currentDate now \<and> ?slotStart < now
                then setMinutes now (ceil30 (getMinutes now)) else ?slotStart"
  from assms row open_day hm
  have probe: "probeSlots s service sellerId currentDate ?dayEnd ?first = Some slot"
    by (auto simp: probeDay_def Let_def split: option.splits)
  note p = probeSlots_Some [OF probe]
  from p obtain k where k: "slot_startTime slot = ?first + int k * 1800000"
    by blast
  have "now \<le> ?first" if "sameDateString currentDate now"
    using that setMinutes_ceil30_ge [of now] by simp
  with k have "sameDateString currentDate now \<longrightarrow> now \<le> slot_startTime slot"
    by auto
  with row open_day hm(2) p show ?thesis by blast
qed

lemma scanDays_Some:
  "scanDays s now service sellerId endDate currentDate = Some slot \<Longrightarrow>
     \<exists>k. currentDate + int k * dayMs \<le> endDate
       \<and> probeDay s now service sellerId (currentDate + int k * dayMs) = Some slot
       \<and> (\<forall>j<k. probeDay s now service sellerId (currentDate + int j * dayMs) = None)"
proof (induction s now service sellerId endDate currentDate rule: scanDays.induct)
  case (1 s now service sellerId endDate currentDate)
  note unfold = scanDays.simps [of s now service sellerId endDate currentDate]
  from "1.prems" have inside: "currentDate \<le> endDate"
    by (simp add: unfold split: if_splits)
  show ?case
  proof (cases "probeDay s now service sellerId currentDate")
    case (Some found)
    with "1.prems" inside have "found = slot" by (simp add: unfold)
    with Some inside have "currentDate + int 0 * dayMs \<le> endDate
       \<and> probeDay s now service sellerId (currentDate + int 0 * dayMs) = Some slot
       \<and> (\<forall>j<(0::nat). probeDay s now service sellerId (currentDate + int j * dayMs) = None)"
      by simp
    then show ?thesis by blast
  next
    case None
    with "1.prems" inside
    have "scanDays s now service sellerId endDate (nextDay currentDate) = Some slot"
      by (simp add: unfold)
    from "1.IH" [OF inside None this] obtain k where
        k: "nextDay currentDate + int k * dayMs \<le> endDate"
           "probeDay s now service sellerId (nextDay currentDate + int k * dayMs) = Some slot"
       and before: "\<forall>j<k. probeDay s now service sellerId (nextDay currentDate + int j * dayMs) = None"
      by blast
    have shift: "nextDay currentDate + int j * dayMs = currentDate + int (Suc j) * dayMs" for j
      by (simp add: nextDay_def algebra_simps)
    have "probeDay s now service sellerId (currentDate + int j * dayMs) = None" if "j < Suc k" for j
    proof (cases j)
      case 0
      with None show ?thesis by simp
    next
      case (Suc j')
      with that have "j' < k" by simp
      with before have "probeDay s now service sellerId (nextDay currentDate + int j' * dayMs) = None"
        by blast
      then show ?thesis unfolding shift Suc .
    qed
    with k shift [of k] have "currentDate + int (Suc k) * dayMs \<le> endDate
       \<and> probeDay s now service sellerId (currentDate + int (Suc k) * dayMs) = Some slot
       \<and> (\<forall>j<Suc k. probeDay s now service sellerId (currentDate + int j * dayMs) = None)"
      by simp
    then show ?thesis by blast
  qed
qed

text \<open>
  Bounds that hold on every input: a slot returned by \<open>getNextAvailableSlot\<close>
  ends by the end of the recurring window of its day, and when its day is the day of
  \<open>now\<close> it does not start before \<open>now\<close>.
\<close>

lemma next_slot_bounds:
  assumes "getNextAvailableSlot s now serviceId fromDate daysAhead = Inr (Some slot)"
  shows "\<exists>service seller availability endHour endMinute.
           findService s serviceId = Some (service, seller)
         \<and> find (\<lambda>r. avail_sellerId r = seller_id seller
                       \<and> avail_dayOfWeek r = getDay (slot_date slot))
             (sellerAvailability s) = Some availability
         \<and> hourMinute (avail_endTime availability) = Some (endHour, endMinute)
         \<and> slot_endTime slot = slot_startTime slot + durationMinutes service * 60000
         \<and> slot_endTime slot \<le> setHours (slot_date slot) endHour endMinute
         \<and> (sameDateString (slot_date slot) now \<longrightarrow> now \<le> slot_startTime slot)"
proof -
  from assms obtain service seller where svc: "findService s serviceId = Some (service, seller)"
    by (auto simp: getNextAvailableSlot_def split: option.splits)
  with assms have "scanDays s now service (seller_id seller)
       (fromDate + daysAhead * 24 * 60 * 60 * 1000) (startOfDay fromDate) = Some slot"
    by (simp add: getNextAvailableSlot_def Let_def)
  from scanDays_Some [OF this] obtain d where
      "probeDay s now service (seller_id seller) d = Some slot"
    by blast
  from probeDay_Some [OF this] svc show ?thesis by blast
qed

subsection \<open>Hours written with two digits\<close>

text \<open>
  For hour strings written "HH:MM" the string comparison of \<open>isSellerAvailable\<close> is
  the comparison of the times, and every probe of the inner loop passes it.
\<close>

lemma digitChar_codes: "\<forall>n \<in> set [0 ..< 10]. of_char (digitChar n) = (48 + n :: nat)"
  by (simp add: upt_rec digitChar_def)

lemma digitChar_code: "n < 10 \<Longrightarrow> of_char (digitChar n) = (48 + n :: nat)"
  using digitChar_codes by (simp del: upt.simps)

lemma digitChar_less: "a < 10 \<Longrightarrow> b < 10 \<Longrightarrow> digitChar a < digitChar b \<longleftrightarrow> a < b"
  by (simp add: less_char_def digitChar_code)

lemma digitChar_eq: "a < 10 \<Longrightarrow> b < 10 \<Longrightarrow> digitChar a = digitChar b \<longleftrightarrow> a = b"
  by (metis digitChar_code add_left_cancel)

lemma digitChar_mod: "digitChar n = digitChar (n mod 10)"
  by (simp add: digitChar_def)

lemma two_digits_less:
  fixes x y :: nat
  shows "(x div 10 < y div 10 \<or> (x div 10 = y div 10 \<and> x mod 10 < y mod 10)) \<longleftrightarrow> x < y"
proof -
  have x: "x = 10 * (x div 10) + x mod 10" and y: "y = 10 * (y div 10) + y mod 10" by simp_all
  have b: "x mod 10 < 10" "y mod 10 < 10" by simp_all
  define X M Y N where "X = x div 10" and "M = x mod 10" and "Y = y div 10" and "N = y mod 10"
  have "(X < Y \<or> (X = Y \<and> M < N)) \<longleftrightarrow> 10 * X + M < 10 * Y + N"
    using b unfolding M_def [symmetric] N_def [symmetric] by auto
  then show ?thesis using x y unfolding X_def M_def Y_def N_def by simp
qed

lemma two_digits_eq:
  fixes x y :: nat
  shows "(x div 10 = y div 10 \<and> x mod 10 = y mod 10) \<longleftrightarrow> x = y"
  by (metis div_mult_mod_eq)

lemma pad2_less:
  assumes "0 \<le> a" "a < 100" "0 \<le> b" "b < 100"
  shows "pad2 a < pad2 b \<longleftrightarrow> a < b"
proof -
  have d: "nat a div 10 < 10" "nat b div 10 < 10" "nat a mod 10 < 10" "nat b mod 10 < 10"
    using assms by simp_all
  have "pad2 a < pad2 b \<longleftrightarrow>
          nat a div 10 < nat b div 10 \<or> (nat a div 10 = nat b div 10 \<and> nat a mod 10 < nat b mod 10)"
    unfolding pad2_def digitChar_mod [of "nat a"] digitChar_mod [of "nat b"]
    by (simp add: digitChar_less [OF d(1,2)] digitChar_eq [OF d(1,2)] digitChar_less [OF d(3,4)])
  also have "\<dots> \<longleftrightarrow> nat a < nat b" by (rule two_digits_less)
  also have "\<dots> \<longleftrightarrow> a < b" using assms by auto
  finally show ?thesis .
qed

lemma pad2_eq:
  assumes "0 \<le> a" "a < 100" "0 \<le> b" "b < 100"
  shows "pad2 a = pad2 b \<longleftrightarrow> a = b"
proof -
  have d: "nat a div 10 < 10" "nat b div 10 < 10" "nat a mod 10 < 10" "nat b mod 10 < 10"
    using assms by simp_all
  have "pad2 a = pad2 b \<longleftrightarrow>
          nat a div 10 = nat b div 10 \<and> nat a mod 10 = nat b mod 10"
    unfolding pad2_def digitChar_mod [of "nat a"] digitChar_mod [of "nat b"]
    by (simp add: digitChar_eq [OF d(1,2)] digitChar_eq [OF d(3,4)])
  also have "\<dots> \<longleftrightarrow> nat a = nat b" by (rule two_digits_eq)
  also have "\<dots> \<longleftrightarrow> a = b" using assms by auto
  finally show ?thesis .
qed

lemma pad2_length: "length (pad2 a) = 2"
  by (simp add: pad2_def)

lemma less_append_same_length:
  fixes xs ys :: "char list"
  shows "length xs = length ys \<Longrightarrow>
         xs @ c # zs < ys @ c # ws \<longleftrightarrow> xs < ys \<or> (xs = ys \<and> zs < ws)"
  by (induction xs ys rule: list_induct2) auto

lemma hhmm_less:
  assumes "0 \<le> H" "H < 100" "0 \<le> h" "h < 100" "0 \<le> M" "M < 100" "0 \<le> m" "m < 100"
  shows "pad2 H @ '':'' @ pad2 M < pad2 h @ '':'' @ pad2 m \<longleftrightarrow> H < h \<or> (H = h \<and> M < m)"
proof -
  have "pad2 H @ '':'' @ pad2 M < pad2 h @ '':'' @ pad2 m
          \<longleftrightarrow> pad2 H < pad2 h \<or> (pad2 H = pad2 h \<and> pad2 M < pad2 m)"
    using less_append_same_length [of "pad2 H" "pad2 h" "CHR '':''" "pad2 M" "pad2 m"]
    by (simp add: pad2_length)
  then show ?thesis
    using assms by (simp add: pad2_less pad2_eq)
qed

lemma minute_of_hour: "(r mod 3600000) div 60000 = (r div 60000) mod 60" for r :: int
proof -
  have "r mod (60000 * 60) = 60000 * (r div 60000 mod 60) + r mod 60000"
    by (rule zmod_zmult2_eq) simp
  then have "(r mod 3600000) div 60000 = (60000 * (r div 60000 mod 60) + r mod 60000) div 60000"
    by simp
  also have "\<dots> = r div 60000 mod 60"
    by simp
  finally show ?thesis .
qed

lemma hour_of_day: "r div 3600000 = (r div 60000) div 60" for r :: int
  using zdiv_zmult2_eq [of 60 r 60000] by simp

lemma int_div_less_iff: "0 < c \<Longrightarrow> r div c < n \<longleftrightarrow> r < n * c" for r c n :: int
proof -
  assume c: "0 < c"
  have "(r + c * (- n)) div c = - n + r div c"
    using c div_mult_self2 [of c r "- n"] by simp
  then have "(r + (- n) * c) div c = - n + r div c"
    by (simp add: mult.commute)
  then have "r div c < n \<longleftrightarrow> (r + (- n) * c) div c < 0" by simp
  also have "\<dots> \<longleftrightarrow> r + (- n) * c < 0" using c by (rule pos_imp_zdiv_neg_iff)
  also have "\<dots> \<longleftrightarrow> r < n * c" by simp
  finally show ?thesis .
qed

lemma hour_minute_less:
  fixes q :: int
  assumes "0 \<le> m" "m < 60"
  shows "(q div 60 < h \<or> (q div 60 = h \<and> q mod 60 < m)) \<longleftrightarrow> q < h * 60 + m"
proof -
  have q: "q = 60 * (q div 60) + q mod 60" by simp
  have b: "0 \<le> q mod 60" "q mod 60 < 60" by simp_all
  define H where "H = q div 60"
  define M where "M = q mod 60"
  have "(H < h \<or> (H = h \<and> M < m)) \<longleftrightarrow> 60 * H + M < h * 60 + m"
    using b assms unfolding M_def [symmetric] by auto
  then show ?thesis using q unfolding H_def M_def by simp
qed

text \<open>Hour and minute of an instant \<open>r\<close> milliseconds into a day that starts at \<open>d\<close>.\<close>

lemma time_of_day:
  assumes "d mod dayMs = 0" "0 \<le> r" "r < dayMs"
  shows "getHours (d + r) = (r div 60000) div 60"
    and "getMinutes (d + r) = (r div 60000) mod 60"
proof -
  have day: "(d + r) mod dayMs = r"
    using assms by (simp add: mod_add_eq [symmetric] mod_pos_pos_trivial)
  have "d mod hourMs = 0"
  proof -
    have "hourMs dvd dayMs" by (simp add: hourMs_def dayMs_def)
    moreover have "dayMs dvd d" using assms(1) by (simp add: dvd_eq_mod_eq_0)
    ultimately show ?thesis by (meson dvd_trans dvd_eq_mod_eq_0)
  qed
  then have hour: "(d + r) mod hourMs = r mod hourMs"
    by (simp add: mod_add_eq [symmetric])
  show "getHours (d + r) = (r div 60000) div 60"
    unfolding getHours_def day hourMs_def by (rule hour_of_day)
  have "getMinutes (d + r) = (r mod hourMs) div minuteMs"
    unfolding getMinutes_def hour ..
  then show "getMinutes (d + r) = (r div 60000) mod 60"
    unfolding hourMs_def minuteMs_def by (simp add: minute_of_hour)
qed

lemma timeString_less_padded:
  assumes day: "d mod dayMs = 0" and t: "d \<le> t" "t < d + dayMs"
      and hm: "0 \<le> h" "h < 24" "0 \<le> m" "m < 60"
  shows "timeString t < pad2 h @ '':'' @ pad2 m \<longleftrightarrow> t < setHours d h m"
proof -
  define r where "r = t - d"
  have r: "0 \<le> r" "r < dayMs" "t = d + r"
    using t by (simp_all add: r_def)
  define q where "q = r div 60000"
  have q: "0 \<le> q" "q < 1440"
    using r(1,2) by (simp_all add: q_def dayMs_def int_div_less_iff pos_imp_zdiv_nonneg_iff)
  have H: "0 \<le> q div 60" "q div 60 < 24"
    using q by (simp_all add: int_div_less_iff pos_imp_zdiv_nonneg_iff)
  have M: "0 \<le> q mod 60" "q mod 60 < 60"
    by simp_all
  have "timeString t = pad2 (q div 60) @ '':'' @ pad2 (q mod 60)"
    unfolding timeString_def r(3) time_of_day [OF day r(1,2)] q_def ..
  then have "timeString t < pad2 h @ '':'' @ pad2 m
               \<longleftrightarrow> q div 60 < h \<or> (q div 60 = h \<and> q mod 60 < m)"
    using H M hm hhmm_less [of "q div 60" h "q mod 60" m] by simp
  also have "\<dots> \<longleftrightarrow> q < h * 60 + m"
    by (rule hour_minute_less [OF hm(3,4)])
  also have "\<dots> \<longleftrightarrow> r < (h * 60 + m) * 60000"
    unfolding q_def by (rule int_div_less_iff) simp
  also have "\<dots> \<longleftrightarrow> t < setHours d h m"
    using day by (simp add: r_def setHours_def startOfDay_def hourMs_def minuteMs_def algebra_simps)
  finally show ?thesis .
qed

lemma paddedTimeD:
  "paddedTime str \<Longrightarrow> hourMinute str = Some (h, m) \<Longrightarrow>
     0 \<le> h \<and> h < 24 \<and> 0 \<le> m \<and> m < 60 \<and> str = pad2 h @ '':'' @ pad2 m"
  by (simp add: paddedTime_def)

lemma setHours_in_day:
  assumes "d mod dayMs = 0" "0 \<le> h" "h < 24" "0 \<le> m" "m < 60"
  shows "d \<le> setHours d h m" and "setHours d h m < d + dayMs"
  using assms by (simp_all add: setHours_def startOfDay_def hourMs_def minuteMs_def dayMs_def)

lemma padded_hours_pass:
  assumes p: "paddedTime opens" "paddedTime closes"
      and hm: "hourMinute opens = Some (startHour, startMinute)"
              "hourMinute closes = Some (endHour, endMinute)"
      and day: "d mod dayMs = 0"
      and t: "setHours d startHour startMinute \<le> t" "t < setHours d endHour endMinute"
  shows "\<not> (timeString t < opens \<or> timeString t \<ge> closes)"
proof -
  note o = paddedTimeD [OF p(1) hm(1)] and c = paddedTimeD [OF p(2) hm(2)]
  have lo: "d \<le> t"
    using setHours_in_day(1) [OF day, of startHour startMinute] o t(1) by simp
  have hi: "t < d + dayMs"
    using setHours_in_day(2) [OF day, of endHour endMinute] c t(2) by simp
  have "timeString t < opens \<longleftrightarrow> t < setHours d startHour startMinute"
    using timeString_less_padded [OF day lo hi, of startHour startMinute] o by simp
  moreover have "timeString t < closes \<longleftrightarrow> t < setHours d endHour endMinute"
    using timeString_less_padded [OF day lo hi, of endHour endMinute] c by simp
  ultimately show ?thesis using t by (simp add: not_le)
qed

text \<open>Inside the window of an open day without time off, only a booking makes a probe unavailable.\<close>

lemma isSellerAvailable_padded:
  assumes row: "find (\<lambda>r. avail_sellerId r = sellerId \<and> avail_dayOfWeek r = getDay d)
                  (sellerAvailability s) = Some a"
      and open_day: "avail_isAvailable a"
      and p: "paddedTime (avail_startTime a)" "paddedTime (avail_endTime a)"
      and hm: "hourMinute (avail_startTime a) = Some (startHour, startMinute)"
              "hourMinute (avail_endTime a) = Some (endHour, endMinute)"
      and no_leave: "find (\<lambda>t. off_sellerId t = sellerId \<and> off_isActive t
                          \<and> off_startDate t \<le> d \<and> off_endDate t \<ge> d)
                       (sellerTimeOff s) = None"
      and day: "d mod dayMs = 0"
      and t: "setHours d startHour startMinute \<le> t" "t < setHours d endHour endMinute"
  shows "available (isSellerAvailable s sellerId d t t') \<longleftrightarrow> checkTimeSlotAvailability s sellerId t t'"
proof -
  have hours: "\<not> (timeString t < avail_startTime a \<or> timeString t \<ge> avail_endTime a)"
    by (rule padded_hours_pass [OF p hm day t])
  show ?thesis
    unfolding isSellerAvailable_def checkTimeSlotAvailability_def Let_def
    using hours by (simp add: row open_day no_leave unavailable_def)
qed

text \<open>
  With all hours written with two digits, what a day of the outer loop returns is free
  of conflicting appointments, and every earlier probe of that day, 30 minutes apart
  from the first, either runs past the end of the window or has a conflict.
\<close>

lemma probeDay_first_free:
  assumes found: "probeDay s now service sellerId d = Some slot"
      and day: "d mod dayMs = 0"
      and padded: "\<forall>r \<in> set (sellerAvailability s).
                     paddedTime (avail_startTime r) \<and> paddedTime (avail_endTime r)"
  shows "checkTimeSlotAvailability s sellerId (slot_startTime slot) (slot_endTime slot)
       \<and> (\<exists>a startHour startMinute endHour endMinute first k.
            find (\<lambda>r. avail_sellerId r = sellerId \<and> avail_dayOfWeek r = getDay d)
              (sellerAvailability s) = Some a
          \<and> hourMinute (avail_startTime a) = Some (startHour, startMinute)
          \<and> hourMinute (avail_endTime a) = Some (endHour, endMinute)
          \<and> first = (if sameDateString d now \<and> setHours d startHour startMinute < now
                      then setMinutes now (ceil30 (getMinutes now))
                      else setHours d startHour startMinute)
          \<and> slot_startTime slot = first + int k * 1800000
          \<and> (\<forall>j<k. \<not> (first + int j * 1800000 + durationMinutes service * 60000
                           \<le> setHours d endHour endMinute
                        \<and> checkTimeSlotAvailability s sellerId (first + int j * 1800000)
                            (first + int j * 1800000 + durationMinutes service * 60000))))"
proof -
  from found obtain a where row:
      "find (\<lambda>r. avail_sellerId r = sellerId \<and> avail_dayOfWeek r = getDay d)
             (sellerAvailability s) = Some a"
    by (auto simp: probeDay_def Let_def split: option.splits)
  from found row have open_day: "avail_isAvailable a"
    by (auto simp: probeDay_def Let_def split: if_splits)
  from found row open_day have no_leave:
      "find (\<lambda>t. off_sellerId t = sellerId \<and> off_isActive t
                  \<and> off_startDate t \<le> d \<and> off_endDate t \<ge> d) (sellerTimeOff s) = None"
    by (auto simp: probeDay_def Let_def split: option.splits)
  from found row open_day no_leave obtain startHour startMinute endHour endMinute where
      hm: "hourMinute (avail_startTime a) = Some (startHour, startMinute)"
          "hourMinute (avail_endTime a) = Some (endHour, endMinute)"
    by (auto simp: probeDay_def Let_def split: option.splits)
  from row have "a \<in> set (sellerAvailability s)"
    by (auto simp: find_Some_iff)
  with padded have p: "paddedTime (avail_startTime a)" "paddedTime (avail_endTime a)"
    by auto
  let ?opens = "setHours d startHour startMinute"
  let ?dayEnd = "setHours d endHour endMinute"
  let ?first = "if sameDateString d now \<and> ?opens < now
                then setMinutes now (ceil30 (getMinutes now)) else ?opens"
  from found row open_day no_leave hm
  have probe: "probeSlots s service sellerId d ?dayEnd ?first = Some slot"
    by (simp add: probeDay_def Let_def)
  note ps = probeSlots_Some [OF probe]
  from ps obtain k where k: "slot_startTime slot = ?first + int k * 1800000"
      and before: "\<forall>j<k. \<not> (?first + int j * 1800000 + durationMinutes service * 60000 \<le> ?dayEnd
                 \<and> available (isSellerAvailable s sellerId d
                       (?first + int j * 1800000)
                       (?first + int j * 1800000 + durationMinutes service * 60000)))"
    by blast
  have first: "?opens \<le> ?first"
    using setMinutes_ceil30_ge [of now] by simp
  have inside: "?opens \<le> ?first + int j * 1800000 \<and> ?first + int j * 1800000 < ?dayEnd"
    if "j \<le> k" for j
  proof -
    have "?first + int j * 1800000 \<le> ?first + int k * 1800000"
      using that by simp
    with k ps first show ?thesis by simp
  qed
  note iff = isSellerAvailable_padded [OF row open_day p hm no_leave day]
  have at_k: "?opens \<le> slot_startTime slot" "slot_startTime slot < ?dayEnd"
    using inside [of k] unfolding k by blast+
  have "checkTimeSlotAvailability s sellerId (slot_startTime slot) (slot_endTime slot)"
    using iff [OF at_k, of "slot_endTime slot"] ps by blast
  moreover have "\<forall>j<k. \<not> (?first + int j * 1800000 + durationMinutes service * 60000 \<le> ?dayEnd
                 \<and> checkTimeSlotAvailability s sellerId (?first + int j * 1800000)
                       (?first + int j * 1800000 + durationMinutes service * 60000))"
  proof (intro allI impI)
    fix j assume "j < k"
    then have "j \<le> k" by simp
    from inside [OF this]
    have at_j: "?opens \<le> ?first + int j * 1800000" "?first + int j * 1800000 < ?dayEnd"
      by blast+
    from iff [OF at_j, of "?first + int j * 1800000 + durationMinutes service * 60000"]
      before \<open>j < k\<close>
    show "\<not> (?first + int j * 1800000 + durationMinutes service * 60000 \<le> ?dayEnd
                 \<and> checkTimeSlotAvailability s sellerId (?first + int j * 1800000)
                       (?first + int j * 1800000 + durationMinutes service * 60000))"
      by blast
  qed
  ultimately show ?thesis using row hm k by blast
qed

lemma startOfDay_mod: "(startOfDay t + int k * dayMs) mod dayMs = 0"
proof -
  have "startOfDay t = dayMs * (t div dayMs)"
    by (simp add: startOfDay_def minus_mod_eq_mult_div)
  then show ?thesis by simp
qed

text \<open>
  The first free slot, for hours written with two digits:
  the slot \<open>getNextAvailableSlot\<close> returns has no conflicting appointment, is the first
  such probe of its day in strides of 30 minutes, and no earlier day gave a slot.
\<close>

lemma next_slot_first_free:
  assumes "getNextAvailableSlot s now serviceId fromDate daysAhead = Inr (Some slot)"
      and "\<forall>r \<in> set (sellerAvailability s).
             paddedTime (avail_startTime r) \<and> paddedTime (avail_endTime r)"
  shows "\<exists>service seller n.
           findService s serviceId = Some (service, seller)
         \<and> slot_date slot = startOfDay fromDate + int n * dayMs
         \<and> (\<forall>i<n. probeDay s now service (seller_id seller) (startOfDay fromDate + int i * dayMs) = None)
         \<and> checkTimeSlotAvailability s (seller_id seller) (slot_startTime slot) (slot_endTime slot)
         \<and> (\<exists>a startHour startMinute endHour endMinute first k.
              find (\<lambda>r. avail_sellerId r = seller_id seller
                         \<and> avail_dayOfWeek r = getDay (slot_date slot))
                (sellerAvailability s) = Some a
            \<and> hourMinute (avail_startTime a) = Some (startHour, startMinute)
            \<and> hourMinute (avail_endTime a) = Some (endHour, endMinute)
            \<and> first = (if sameDateString (slot_date slot) now
                             \<and> setHours (slot_date slot) startHour startMinute < now
                        then setMinutes now (ceil30 (getMinutes now))
                        else setHours (slot_date slot) startHour startMinute)
            \<and> slot_startTime slot = first + int k * 1800000
            \<and> (\<forall>j<k. \<not> (first + int j * 1800000 + durationMinutes service * 60000
                             \<le> setHours (slot_date slot) endHour endMinute
                          \<and> checkTimeSlotAvailability s (seller_id seller) (first + int j * 1800000)
                              (first + int j * 1800000 + durationMinutes service * 60000))))"
proof -
  from assms(1) obtain service seller where svc: "findService s serviceId = Some (service, seller)"
    by (auto simp: getNextAvailableSlot_def split: option.splits)
  with assms(1) have "scanDays s now service (seller_id seller)
       (fromDate + daysAhead * 24 * 60 * 60 * 1000) (startOfDay fromDate) = Some slot"
    by (simp add: getNextAvailableSlot_def Let_def)
  from scanDays_Some [OF this] obtain n where
      n: "probeDay s now service (seller_id seller) (startOfDay fromDate + int n * dayMs) = Some slot"
         "\<forall>i<n. probeDay s now service (seller_id seller) (startOfDay fromDate + int i * dayMs) = None"
    by blast
  from probeDay_Some [OF n(1)] have date: "slot_date slot = startOfDay fromDate + int n * dayMs"
    by blast
  note free = probeDay_first_free [OF n(1) startOfDay_mod assms(2), folded date]
  show ?thesis
  proof (intro exI [of _ service] exI [of _ seller] exI [of _ n] conjI)
    show "findService s serviceId = Some (service, seller)" by (rule svc)
    show "slot_date slot = startOfDay fromDate + int n * dayMs" by (rule date)
    show "\<forall>i<n. probeDay s now service (seller_id seller)
                   (startOfDay fromDate + int i * dayMs) = None" by (rule n(2))
    show "checkTimeSlotAvailability s (seller_id seller) (slot_startTime slot) (slot_endTime slot)"
      using free by (rule conjunct1)
    show "\<exists>a startHour startMinute endHour endMinute first k.
              find (\<lambda>r. avail_sellerId r = seller_id seller
                         \<and> avail_dayOfWeek r = getDay (slot_date slot))
                (sellerAvailability s) = Some a
            \<and> hourMinute (avail_startTime a) = Some (startHour, startMinute)
            \<and> hourMinute (avail_endTime a) = Some (endHour, endMinute)
            \<and> first = (if sameDateString (slot_date slot) now
                             \<and> setHours (slot_date slot) startHour startMinute < now
                        then setMinutes now (ceil30 (getMinutes now))
                        else setHours (slot_date slot) startHour startMinute)
            \<and> slot_startTime slot = first + int k * 1800000
            \<and> (\<forall>j<k. \<not> (first + int j * 1800000 + durationMinutes service * 60000
                             \<le> setHours (slot_date slot) endHour endMinute
                          \<and> checkTimeSlotAvailability s (seller_id seller) (first + int j * 1800000)
                              (first + int j * 1800000 + durationMinutes service * 60000)))"
      using free by (rule conjunct2)
  qed
qed

text \<open>The example store has its hours written with two digits; "8:00" is not.\<close>

lemma example_hours:
  "\<forall>r \<in> set (sellerAvailability exDb). paddedTime (avail_startTime r) \<and> paddedTime (avail_endTime r)"
  "\<not> paddedTime (avail_startTime exUnpaddedHours)"
  by code_simp+

subsection \<open>The scenario, and two failing inputs\<close>

text \<open>
  The example store, where the hours are written "09:00" and "12:00": before 09:00 on
  the Monday the answer is 09:00 to 10:00, and once that is booked it is 10:00 to
  11:00.
\<close>

lemma next_slot_scenario:
  "getNextAvailableSlot exDb (monday + 8 * 3600000) 3 (monday + 8 * 3600000) 30
     = Inr (Some \<lparr> slot_date = monday, slot_startTime = monday + 9 * 3600000,
                    slot_endTime = monday + 10 * 3600000 \<rparr>)"
  "snd (createAppointment noFaults exDb 5 exNine) = exBooked"
  "getNextAvailableSlot exBooked (monday + 8 * 3600000) 3 (monday + 8 * 3600000) 30
     = Inr (Some \<lparr> slot_date = monday, slot_startTime = monday + 10 * 3600000,
                    slot_endTime = monday + 11 * 3600000 \<rparr>)"
  by code_simp+

text \<open>
  C4 at hours written "8:00" to "9:30". The Monday is eligible and nothing is booked:
  the windows 08:00 to 09:00 and 08:30 to 09:30 are free of conflict, and
  \<open>getAvailableTimeSlots\<close> lists both as available. \<open>getNextAvailableSlot\<close> returns
  no slot: \<open>isSellerAvailable\<close> compares "08:00" with "8:00" as strings and finds
  the probe outside the seller's hours.
\<close>

theorem next_slot_unpadded_hours:
  "getNextAvailableSlot exUnpadded (monday + 7 * 3600000) 3 (monday + 7 * 3600000) 30 = Inr None
   \<and> checkTimeSlotAvailability exUnpadded 7 (monday + 8 * 3600000) (monday + 9 * 3600000)
   \<and> getAvailableTimeSlots exUnpadded 3 monday 30
       = Some (Inr [\<lparr> ts_startTime = ''08:00'', ts_endTime = ''09:00'', ts_isAvailable = True \<rparr>,
                    \<lparr> ts_startTime = ''08:30'', ts_endTime = ''09:30'', ts_isAvailable = True \<rparr>])
   \<and> isSellerAvailable exUnpadded 7 monday (monday + 8 * 3600000) (monday + 9 * 3600000)
       = unavailable ''Time is outside seller's available hours''"
  by code_simp

text \<open>
  C9 at 10:10:25.500 on the Monday of the example store: the returned window starts at
  10:30:25.500, not on a 30-minute boundary, because \<open>setMinutes\<close> keeps the seconds
  and milliseconds of \<open>now\<close>.
\<close>

theorem next_slot_keeps_seconds:
  "getNextAvailableSlot exDb exTenPastTen 3 exTenPastTen 30
     = Inr (Some \<lparr> slot_date = monday,
                    slot_startTime = monday + 10 * 3600000 + 30 * 60000 + 25500,
                    slot_endTime = monday + 11 * 3600000 + 30 * 60000 + 25500 \<rparr>)
   \<and> (monday + 10 * 3600000 + 30 * 60000 + 25500) mod (30 * 60000) = 25500"
  by code_simp

end
